theory Spec2Isabelle
  imports Main "HOL-Library.Sublist" "HOL-Library.Multiset"
begin

section \<open>Python values and exceptions\<close>

text \<open>
  The program is one Python file, \<^verbatim>\<open>meme_search.py\<close>. Python's unbounded integers are
  \<^typ>\<open>int\<close>. A Python \<^verbatim>\<open>str\<close> is a \<^typ>\<open>string\<close>: one \<^typ>\<open>char\<close> per byte of its
  UTF-8 encoding, so only the ASCII digits count as digits (Python's \<^verbatim>\<open>\d\<close> and
  \<^verbatim>\<open>int\<close> also accept the decimal digits of other scripts; those are outside the model).

  Every \<^verbatim>\<open>raise\<close> is a value: a function that can raise returns
  \<open>py_exception + 'a\<close>, with \<open>Inl\<close> the exception. All classes below derive from
  Python's \<^verbatim>\<open>Exception\<close>, which is what the two handlers of the program catch.
  \<open>LibraryError\<close> stands for whatever an external library raises (an HTTP error of
  \<^verbatim>\<open>requests\<close> or \<^verbatim>\<open>googleapiclient\<close>, a failed download of \<^verbatim>\<open>yt_dlp\<close>), with
  its message.
\<close>

datatype py_exception =
    KeyError string
  | TypeError
  | ValueError
  | AttributeError
  | IndexError
  | LibraryError string

text \<open>
  \<^verbatim>\<open>str(e)\<close>. For a \<^verbatim>\<open>KeyError\<close> it is the \<^verbatim>\<open>repr\<close> of the key; for a library error
  its message. The interpreter's own wording for the other classes varies between
  versions; the class name stands for it.
\<close>

fun str_exception :: "py_exception \<Rightarrow> string" where
  "str_exception (KeyError k) = [CHR 0x27] @ k @ [CHR 0x27]"
| "str_exception TypeError = ''TypeError''"
| "str_exception ValueError = ''ValueError''"
| "str_exception AttributeError = ''AttributeError''"
| "str_exception IndexError = ''IndexError''"
| "str_exception (LibraryError m) = m"

text \<open>Sequencing of statements that may raise: the first exception ends the block.\<close>

definition and_then :: "py_exception + 'a \<Rightarrow> ('a \<Rightarrow> py_exception + 'b) \<Rightarrow> py_exception + 'b" where
  "and_then m f = (case m of Inl e \<Rightarrow> Inl e | Inr x \<Rightarrow> f x)"

text \<open>
  JSON as \<^verbatim>\<open>json.loads\<close> (and the API client's \<^verbatim>\<open>execute()\<close>) returns it: \<^verbatim>\<open>None\<close>,
  \<^verbatim>\<open>bool\<close>, \<^verbatim>\<open>int\<close>, \<^verbatim>\<open>str\<close>, \<^verbatim>\<open>list\<close> and \<^verbatim>\<open>dict\<close> (keys in insertion order, looked
  up by the first match). JSON numbers with a fraction (\<^verbatim>\<open>float\<close>) are left out.
\<close>

datatype json =
    JNull
  | JBool bool
  | JInt int
  | JStr string
  | JList "json list"
  | JObj "(string \<times> json) list"

text \<open>\<^verbatim>\<open>j[k]\<close> with a \<^verbatim>\<open>str\<close> key \<open>k\<close>: only a dict can be indexed by a string.\<close>

fun getitem :: "json \<Rightarrow> string \<Rightarrow> py_exception + json" where
  "getitem (JObj kvs) k = (case map_of kvs k of None \<Rightarrow> Inl (KeyError k) | Some v \<Rightarrow> Inr v)"
| "getitem _ k = Inl TypeError"

text \<open>\<^verbatim>\<open>j.get(k, default)\<close>: only a dict has the method.\<close>

fun dict_get :: "json \<Rightarrow> string \<Rightarrow> json \<Rightarrow> py_exception + json" where
  "dict_get (JObj kvs) k d = Inr (case map_of kvs k of None \<Rightarrow> d | Some v \<Rightarrow> v)"
| "dict_get _ k d = Inl AttributeError"

text \<open>
  \<^verbatim>\<open>for x in j\<close>: a list yields its elements, a dict its keys, a string its characters;
  nothing else is iterable.
\<close>

fun iterate :: "json \<Rightarrow> py_exception + json list" where
  "iterate (JList xs) = Inr xs"
| "iterate (JObj kvs) = Inr (map (\<lambda>kv. JStr (fst kv)) kvs)"
| "iterate (JStr s) = Inr (map (\<lambda>c. JStr [c]) s)"
| "iterate _ = Inl TypeError"

text \<open>Truth value of a JSON value in a condition.\<close>

fun truthy :: "json \<Rightarrow> bool" where
  "truthy JNull = False"
| "truthy (JBool b) = b"
| "truthy (JInt n) = (n \<noteq> 0)"
| "truthy (JStr s) = (s \<noteq> [])"
| "truthy (JList xs) = (xs \<noteq> [])"
| "truthy (JObj kvs) = (kvs \<noteq> [])"

subsection \<open>\<^verbatim>\<open>int(...)\<close>\<close>

definition is_digit :: "char \<Rightarrow> bool" where
  "is_digit c \<longleftrightarrow> c \<in> set ''0123456789''"

definition digit_value :: "char \<Rightarrow> int" where
  "digit_value c = int (of_char c) - 48"

text \<open>The value of a string of decimal digits, most significant first.\<close>

definition int_of_digits :: "string \<Rightarrow> int" where
  "int_of_digits ds = foldl (\<lambda>acc c. 10 * acc + digit_value c) 0 ds"

text \<open>
  White space as \<^verbatim>\<open>int\<close> strips it from both ends: tab, line feed, vertical tab, form
  feed, carriage return, the four separators 0x1C to 0x1F, and the space.
\<close>

definition is_space :: "char \<Rightarrow> bool" where
  "is_space c \<longleftrightarrow> (of_char c :: nat) \<in> {9, 10, 11, 12, 13, 28, 29, 30, 31, 32}"

definition strip :: "string \<Rightarrow> string" where
  "strip s = rev (dropWhile is_space (rev (dropWhile is_space s)))"

text \<open>
  The digits part of a decimal literal: digits, with single underscores allowed between
  two digits.
\<close>

fun digits_ok :: "string \<Rightarrow> bool" where
  "digits_ok [] = False"
| "digits_ok [c] = is_digit c"
| "digits_ok (c # d # cs) =
     (is_digit c \<and> (if d = CHR ''_'' then digits_ok cs else digits_ok (d # cs)))"

text \<open>
  The interpreter's limit on the number of digits of a decimal string that \<^verbatim>\<open>int\<close>
  converts: the default of \<^verbatim>\<open>sys.int_max_str_digits\<close>, which the program does not change.
\<close>

definition int_max_str_digits :: nat where
  "int_max_str_digits = 4300"

text \<open>
  \<^verbatim>\<open>int(s)\<close> for a string: optional white space, an optional sign, the digits; anything
  else raises \<^verbatim>\<open>ValueError\<close>, and so does a string with more digits than the limit
  (underscores do not count, leading zeros do).
\<close>

definition int_of_str :: "string \<Rightarrow> py_exception + int" where
  "int_of_str s =
     (let t = strip s;
          neg = (t \<noteq> [] \<and> hd t = CHR ''-'');
          body = (if t \<noteq> [] \<and> (hd t = CHR ''-'' \<or> hd t = CHR ''+'') then tl t else t);
          digits = filter (\<lambda>c. c \<noteq> CHR ''_'') body
      in if digits_ok body \<and> length digits \<le> int_max_str_digits
         then Inr ((if neg then - 1 else 1) * int_of_digits digits)
         else Inl ValueError)"

text \<open>\<^verbatim>\<open>int(x)\<close> for a JSON value or the integer default of \<^verbatim>\<open>.get\<close>.\<close>

fun py_int :: "json \<Rightarrow> py_exception + int" where
  "py_int (JInt n) = Inr n"
| "py_int (JBool b) = Inr (if b then 1 else 0)"
| "py_int (JStr s) = int_of_str s"
| "py_int _ = Inl TypeError"

section \<open>The duration parser\<close>

text \<open>
  \<^verbatim>\<open>re.match(r'PT(?:(\d+)H)?(?:(\d+)M)?(?:(\d+)S)?', duration_str)\<close> matches at the start
  of the string and need not reach its end. One optional group \<^verbatim>\<open>(?:(\d+)U)?\<close> is
  greedy: \<^verbatim>\<open>\d+\<close> takes the longest run of digits, and since the unit letter is not a
  digit, giving digits back can never make the group succeed where the longest run
  fails. So the group matches exactly when a non-empty run of digits is followed by the
  unit, and otherwise it is skipped and consumes nothing. \<open>optional_group\<close> returns the
  captured digits (\<open>None\<close> for a group that did not take part) and the rest of the input.
\<close>

definition optional_group :: "char \<Rightarrow> string \<Rightarrow> string option \<times> string" where
  "optional_group u s =
     (let ds = takeWhile is_digit s; r = dropWhile is_digit s
      in if ds \<noteq> [] \<and> r \<noteq> [] \<and> hd r = u then (Some ds, tl r) else (None, s))"

text \<open>The match object, as its three groups; \<open>None\<close> when the pattern does not match.\<close>

definition re_match_duration :: "string \<Rightarrow> (string option \<times> string option \<times> string option) option" where
  "re_match_duration s =
     (if take 2 s = ''PT''
      then (let (h, r1) = optional_group CHR ''H'' (drop 2 s);
                (m, r2) = optional_group CHR ''M'' r1;
                (sec, r3) = optional_group CHR ''S'' r2
            in Some (h, m, sec))
      else None)"

text \<open>
  \<^verbatim>\<open>int(match.group(i)) if match and match.group(i) else 0\<close>: a group that is \<^verbatim>\<open>None\<close>
  or the empty string counts zero.
\<close>

definition group_value :: "string option \<Rightarrow> py_exception + int" where
  "group_value g = (case g of None \<Rightarrow> Inr 0 | Some ds \<Rightarrow> if ds = [] then Inr 0 else int_of_str ds)"

definition duration_of_string :: "string \<Rightarrow> py_exception + int" where
  "duration_of_string s =
     (let (h, m, sec) = (case re_match_duration s of None \<Rightarrow> (None, None, None) | Some g \<Rightarrow> g)
      in and_then (group_value h) (\<lambda>hours.
         and_then (group_value m) (\<lambda>minutes.
         and_then (group_value sec) (\<lambda>seconds.
         Inr (hours * 3600 + minutes * 60 + seconds)))))"

text \<open>
  \<^verbatim>\<open>parse_iso8601_duration(duration_str)\<close>. The argument comes out of a JSON response;
  \<^verbatim>\<open>re.match\<close> raises \<^verbatim>\<open>TypeError\<close> for anything but a string.
\<close>

fun parse_iso8601_duration :: "json \<Rightarrow> py_exception + int" where
  "parse_iso8601_duration (JStr s) = duration_of_string s"
| "parse_iso8601_duration _ = Inl TypeError"

section \<open>Video discovery: \<^verbatim>\<open>get_youtube_shorts\<close>\<close>

text \<open>
  What the function reads from outside the program, for one call: the configured key
  pool and the draw of \<^verbatim>\<open>random.choice\<close>, the API client constructor, the clock (already
  formatted as the \<^verbatim>\<open>publishedAfter\<close> timestamp for a look-back of so many days), the two
  remote calls (by key, and by query text and timestamp or by the joined ids), and
  Python's \<^verbatim>\<open>str()\<close> of a JSON value that is not a string (used where a value is put
  into an f-string). Each remote call may raise.
\<close>

record youtube_env =
  api_keys :: "string list"
  random_draw :: nat
  build :: "string \<Rightarrow> py_exception option"
  period_ago_of :: "int \<Rightarrow> py_exception + string"
  search_list :: "string \<Rightarrow> string \<Rightarrow> string \<Rightarrow> py_exception + json"
  videos_list :: "string \<Rightarrow> string \<Rightarrow> py_exception + json"
  str_of_value :: "json \<Rightarrow> string"

text \<open>A value inside an f-string: a string is itself.\<close>

definition py_str :: "(json \<Rightarrow> string) \<Rightarrow> json \<Rightarrow> string" where
  "py_str other j = (case j of JStr s \<Rightarrow> s | _ \<Rightarrow> other j)"

text \<open>\<^verbatim>\<open>random.choice(YOUTUBE_API_KEYS)\<close> raises \<^verbatim>\<open>IndexError\<close> on an empty pool.\<close>

definition get_youtube_api_key :: "youtube_env \<Rightarrow> py_exception + string" where
  "get_youtube_api_key E =
     (if api_keys E = [] then Inl IndexError
      else Inr (api_keys E ! (random_draw E mod length (api_keys E))))"

text \<open>\<^verbatim>\<open>[item['id']['videoId'] for item in search_response['items']]\<close>\<close>

fun video_ids_of :: "json list \<Rightarrow> py_exception + json list" where
  "video_ids_of [] = Inr []"
| "video_ids_of (item # items) =
     and_then (getitem item ''id'') (\<lambda>i.
     and_then (getitem i ''videoId'') (\<lambda>v.
     and_then (video_ids_of items) (\<lambda>vs. Inr (v # vs))))"

text \<open>\<^verbatim>\<open>','.join(video_ids)\<close> raises \<^verbatim>\<open>TypeError\<close> on an element that is not a string.\<close>

fun join_comma :: "json list \<Rightarrow> py_exception + string" where
  "join_comma [] = Inr []"
| "join_comma [JStr s] = Inr s"
| "join_comma (JStr s # js) = and_then (join_comma js) (\<lambda>r. Inr (s @ '','' @ r))"
| "join_comma (_ # js) = Inl TypeError"

text \<open>
  The request sequence, up to the items of the detail response (source lines 52 to 77):
  key, client, look-back timestamp, search, ids, detail request.
\<close>

definition fetch_video_items :: "youtube_env \<Rightarrow> json \<Rightarrow> int \<Rightarrow> py_exception + json list" where
  "fetch_video_items E search_query days_ago =
     and_then (get_youtube_api_key E) (\<lambda>key.
     and_then (case build E key of Some e \<Rightarrow> Inl e | None \<Rightarrow> Inr ()) (\<lambda>_.
     and_then (period_ago_of E days_ago) (\<lambda>period_ago.
     and_then (search_list E key (py_str (str_of_value E) search_query @ '' #shorts'') period_ago)
       (\<lambda>search_response.
     and_then (getitem search_response ''items'') (\<lambda>items.
     and_then (iterate items) (\<lambda>item_list.
     and_then (video_ids_of item_list) (\<lambda>video_ids.
     and_then (join_comma video_ids) (\<lambda>ids.
     and_then (videos_list E key ids) (\<lambda>video_response.
     and_then (getitem video_response ''items'') iterate)))))))))"

text \<open>The dict built for a video that passed the filter.\<close>

record video_info =
  title :: json
  video_id :: json
  view_count :: int
  like_count :: int
  published_at :: json
  channel_title :: json
  url :: string

text \<open>\<^verbatim>\<open>parse_iso8601_duration(video['contentDetails']['duration'])\<close>\<close>

definition video_duration :: "json \<Rightarrow> py_exception + int" where
  "video_duration video =
     and_then (getitem video ''contentDetails'') (\<lambda>cd.
     and_then (getitem cd ''duration'') parse_iso8601_duration)"

text \<open>
  The dict literal of source lines 82 to 90, its entries evaluated in order. A lookup
  that succeeded once is not repeated.
\<close>

definition make_video_info :: "(json \<Rightarrow> string) \<Rightarrow> json \<Rightarrow> py_exception + video_info" where
  "make_video_info other video =
     and_then (getitem video ''snippet'') (\<lambda>snippet.
     and_then (getitem snippet ''title'') (\<lambda>t.
     and_then (getitem video ''id'') (\<lambda>vid.
     and_then (getitem video ''statistics'') (\<lambda>statistics.
     and_then (dict_get statistics ''viewCount'' (JInt 0)) (\<lambda>vc.
     and_then (py_int vc) (\<lambda>views.
     and_then (dict_get statistics ''likeCount'' (JInt 0)) (\<lambda>lc.
     and_then (py_int lc) (\<lambda>likes.
     and_then (getitem snippet ''publishedAt'') (\<lambda>published.
     and_then (getitem snippet ''channelTitle'') (\<lambda>channel.
     Inr \<lparr>title = t, video_id = vid, view_count = views, like_count = likes,
          published_at = published, channel_title = channel,
          url = ''https://www.youtube.com/watch?v='' @ py_str other vid\<rparr>))))))))))"

text \<open>The loop of source lines 77 to 91; \<open>videos\<close> is the list built so far.\<close>

fun collect_videos :: "(json \<Rightarrow> string) \<Rightarrow> json list \<Rightarrow> video_info list \<Rightarrow> py_exception + video_info list" where
  "collect_videos other [] videos = Inr videos"
| "collect_videos other (video # rest) videos =
     and_then (video_duration video) (\<lambda>duration.
       if duration \<le> 60
       then and_then (make_video_info other video) (\<lambda>video_info.
              collect_videos other rest (videos @ [video_info]))
       else collect_videos other rest videos)"

text \<open>
  \<^verbatim>\<open>sorted(xs, key=..., reverse=True)\<close>. The interpreter reverses the list, sorts it
  with its stable ascending sort and reverses the result. \<^const>\<open>sort_key\<close> is a stable
  ascending sort, and a stable sort's result is determined by its input.
\<close>

definition sorted_reverse :: "('a \<Rightarrow> int) \<Rightarrow> 'a list \<Rightarrow> 'a list" where
  "sorted_reverse key xs = rev (sort_key key (rev xs))"

text \<open>\<^verbatim>\<open>xs[:n]\<close>; a negative \<open>n\<close> counts from the end.\<close>

definition slice_to :: "int \<Rightarrow> 'a list \<Rightarrow> 'a list" where
  "slice_to n xs = (if 0 \<le> n then take (nat n) xs else take (nat (int (length xs) + n)) xs)"

text \<open>Source lines 77 to 94: filter, build, sort, truncate.\<close>

definition rank_videos :: "(json \<Rightarrow> string) \<Rightarrow> json list \<Rightarrow> int \<Rightarrow> py_exception + video_info list" where
  "rank_videos other items max_results =
     and_then (collect_videos other items []) (\<lambda>videos.
       Inr (slice_to max_results (sorted_reverse view_count videos)))"

text \<open>The body of the \<^verbatim>\<open>try\<close> block.\<close>

definition get_youtube_shorts_try :: "youtube_env \<Rightarrow> json \<Rightarrow> int \<Rightarrow> int \<Rightarrow> py_exception + video_info list" where
  "get_youtube_shorts_try E search_query days_ago max_results =
     and_then (fetch_video_items E search_query days_ago) (\<lambda>items.
       rank_videos (str_of_value E) items max_results)"

text \<open>
  \<^verbatim>\<open>get_youtube_shorts(search_query, days_ago, max_results)\<close>: the handler
  \<^verbatim>\<open>except Exception\<close> prints the exception to the console and returns the empty list.
  The console is not part of the model.
\<close>

definition get_youtube_shorts :: "youtube_env \<Rightarrow> json \<Rightarrow> int \<Rightarrow> int \<Rightarrow> video_info list" where
  "get_youtube_shorts E search_query days_ago max_results =
     (case get_youtube_shorts_try E search_query days_ago max_results of
        Inl e \<Rightarrow> []
      | Inr videos \<Rightarrow> videos)"

text \<open>The default of the parameter \<^verbatim>\<open>max_results\<close>; \<^verbatim>\<open>main\<close> never passes another.\<close>

definition default_max_results :: int where
  "default_max_results = 5"

section \<open>The analysis loop of \<^verbatim>\<open>main\<close>\<close>

text \<open>
  The country selector offers exactly the keys of \<^verbatim>\<open>COUNTRY_QUERIES\<close>, and the period
  selector exactly the keys of \<^verbatim>\<open>PERIOD_OPTIONS\<close>, so both are enumerations; the
  lookups in the two tables cannot fail. The search terms are given as the bytes of
  their UTF-8 encoding.
\<close>

datatype country = Korea | USA | Japan

record country_query =
  q_term :: string
  geo :: string
  hl :: string

fun COUNTRY_QUERIES :: "country \<Rightarrow> country_query" where
  "COUNTRY_QUERIES Korea = \<lparr>q_term = [CHR 0xEB, CHR 0xB0, CHR 0x88], geo = ''KR'', hl = ''ko''\<rparr>"
| "COUNTRY_QUERIES USA = \<lparr>q_term = ''meme'', geo = ''US'', hl = ''en''\<rparr>"
| "COUNTRY_QUERIES Japan =
     \<lparr>q_term = [CHR 0xE3, CHR 0x83, CHR 0x9F, CHR 0xE3, CHR 0x83, CHR 0xBC, CHR 0xE3, CHR 0x83, CHR 0xA0],
      geo = ''JP'', hl = ''ja''\<rparr>"

datatype period = Last_day | Last_week | Last_month | Last_year

fun PERIOD_OPTIONS :: "period \<Rightarrow> int" where
  "PERIOD_OPTIONS Last_day = 1"
| "PERIOD_OPTIONS Last_week = 7"
| "PERIOD_OPTIONS Last_month = 30"
| "PERIOD_OPTIONS Last_year = 365"

text \<open>
  A Python dict with its insertion order, as an association list with one entry per key.
  \<^verbatim>\<open>d[k] = v\<close> replaces the value of an existing key where it stands and otherwise adds
  the entry at the end. \<open>eq\<close> is the equality of keys. \<open>dict_find\<close> is the lookup.
\<close>

fun dict_set :: "('k \<Rightarrow> 'k \<Rightarrow> bool) \<Rightarrow> 'k \<Rightarrow> 'v \<Rightarrow> ('k \<times> 'v) list \<Rightarrow> ('k \<times> 'v) list" where
  "dict_set eq k v [] = [(k, v)]"
| "dict_set eq k v ((k', v') # kvs) =
     (if eq k' k then (k', v) # kvs else (k', v') # dict_set eq k v kvs)"

fun dict_find :: "('k \<Rightarrow> 'k \<Rightarrow> bool) \<Rightarrow> 'k \<Rightarrow> ('k \<times> 'v) list \<Rightarrow> 'v option" where
  "dict_find eq k [] = None"
| "dict_find eq k ((k', v') # kvs) = (if eq k' k then Some v' else dict_find eq k kvs)"

text \<open>
  Keys that are JSON values: lists and dicts are unhashable, and \<^verbatim>\<open>True == 1\<close>,
  \<^verbatim>\<open>False == 0\<close> as keys.
\<close>

fun hashable :: "json \<Rightarrow> bool" where
  "hashable (JList xs) = False"
| "hashable (JObj kvs) = False"
| "hashable _ = True"

fun key_eq :: "json \<Rightarrow> json \<Rightarrow> bool" where
  "key_eq (JBool b) (JInt n) = (n = (if b then 1 else 0))"
| "key_eq (JInt n) (JBool b) = (n = (if b then 1 else 0))"
| "key_eq a b = (a = b)"

text \<open>
  The HTTP response of the trends provider: \<^verbatim>\<open>raise_for_status()\<close> raises for a status
  from 400 to 599, and \<^verbatim>\<open>json()\<close> raises when the body is not JSON.
\<close>

record http_response =
  status_code :: nat
  json_body :: "py_exception + json"

definition raise_for_status :: "http_response \<Rightarrow> py_exception + unit" where
  "raise_for_status r =
     (if 400 \<le> status_code r \<and> status_code r < 600 then Inl (LibraryError ''HTTPError'') else Inr ())"

text \<open>
  What \<^verbatim>\<open>main\<close> reads from outside during the analysis: the configured API key, the
  provider's answer to a GET request with given parameters (or the exception of
  \<^verbatim>\<open>requests.get\<close>), and, for the \<open>n\<close>-th rising query of a country, what that call of
  \<^verbatim>\<open>get_youtube_shorts\<close> sees.
\<close>

record world =
  SERPAPI_API_KEY :: string
  requests_get :: "(string \<times> string) list \<Rightarrow> py_exception + http_response"
  youtube :: "country \<Rightarrow> nat \<Rightarrow> youtube_env"

text \<open>Source lines 159 to 174: the request, its status check, its body.\<close>

definition fetch_trends :: "world \<Rightarrow> country \<Rightarrow> py_exception + json" where
  "fetch_trends W c =
     (let q = COUNTRY_QUERIES c;
          params = [(''engine'', ''google_trends''), (''q'', q_term q), (''geo'', geo q),
                    (''hl'', hl q), (''data_type'', ''RELATED_QUERIES''),
                    (''api_key'', SERPAPI_API_KEY W)]
      in and_then (requests_get W params) (\<lambda>response.
         and_then (raise_for_status response) (\<lambda>_. json_body response)))"

text \<open>
  \<^verbatim>\<open>x[:15]\<close> for a JSON value: a list or a string is sliced; nothing else can be.
\<close>

fun slice_15 :: "json \<Rightarrow> py_exception + json" where
  "slice_15 (JList xs) = Inr (JList (take 15 xs))"
| "slice_15 (JStr s) = Inr (JStr (take 15 s))"
| "slice_15 _ = Inl TypeError"

text \<open>
  Source lines 176 and 177. The condition \<^verbatim>\<open>related_queries.get("rising")\<close> is evaluated
  first; only when it is true is the value fetched again and sliced.
\<close>

definition rising_queries_of :: "json \<Rightarrow> py_exception + json" where
  "rising_queries_of data =
     and_then (dict_get data ''related_queries'' (JObj [])) (\<lambda>related_queries.
     and_then (dict_get related_queries ''rising'' JNull) (\<lambda>cond.
       if truthy cond
       then and_then (dict_get related_queries ''rising'' (JList [])) slice_15
       else Inr (JList [])))"

text \<open>\<^verbatim>\<open>[{"query": item["query"], "value": item["value"]} for item in rising_queries]\<close>,
  each dict as the pair of its two values.\<close>

fun query_value_pairs :: "json list \<Rightarrow> py_exception + (json \<times> json) list" where
  "query_value_pairs [] = Inr []"
| "query_value_pairs (item # items) =
     and_then (getitem item ''query'') (\<lambda>q.
     and_then (getitem item ''value'') (\<lambda>v.
     and_then (query_value_pairs items) (\<lambda>rest. Inr ((q, v) # rest))))"

text \<open>
  \<^verbatim>\<open>results[country]\<close> is either \<^verbatim>\<open>{"rising_related_queries": [...]}\<close> or
  \<^verbatim>\<open>{"error": str(e)}\<close>.
\<close>

datatype country_result =
    Rising_related_queries "(json \<times> json) list"
  | Error string

text \<open>The two dicts the loop fills.\<close>

record analysis =
  results :: "(country \<times> country_result) list"
  youtube_results :: "(country \<times> (json \<times> video_info list) list) list"

text \<open>
  Source lines 189 to 194, on the dict \<^verbatim>\<open>youtube_results[country]\<close>: the \<open>n\<close>-th item is
  searched, then stored under its query, which must be hashable. The result is the dict
  as the loop left it and the exception that ended the loop, if any.
\<close>

fun shorts_loop ::
  "world \<Rightarrow> period \<Rightarrow> country \<Rightarrow> nat \<Rightarrow> json list \<Rightarrow> (json \<times> video_info list) list
     \<Rightarrow> (json \<times> video_info list) list \<times> py_exception option" where
  "shorts_loop W p c n [] d = (d, None)"
| "shorts_loop W p c n (item # items) d =
     (case getitem item ''query'' of
        Inl e \<Rightarrow> (d, Some e)
      | Inr q \<Rightarrow>
          (let shorts_data = get_youtube_shorts (youtube W c n) q (PERIOD_OPTIONS p) default_max_results
           in if hashable q
              then shorts_loop W p c (Suc n) items (dict_set key_eq q shorts_data d)
              else (d, Some TypeError)))"

text \<open>
  Source lines 159 to 184, the part of the \<^verbatim>\<open>try\<close> block before anything is stored:
  the items of the rising list and the pairs made of them.
\<close>

definition trend_stage :: "world \<Rightarrow> country \<Rightarrow> py_exception + json list \<times> (json \<times> json) list" where
  "trend_stage W c =
     and_then (fetch_trends W c) (\<lambda>data.
     and_then (rising_queries_of data) (\<lambda>rising_queries.
     and_then (iterate rising_queries) (\<lambda>items.
     and_then (query_value_pairs items) (\<lambda>pairs. Inr (items, pairs)))))"

text \<open>
  One iteration of the loop over the selected countries (source lines 158 to 198). An
  exception before line 179 leaves both dicts as they were and then records the error.
  After line 179 the rising pairs are stored, \<^verbatim>\<open>youtube_results[country]\<close> starts as the
  empty dict and is filled; an exception there leaves what was stored in
  \<^verbatim>\<open>youtube_results\<close> and replaces the country's entry of \<^verbatim>\<open>results\<close> by the error.
\<close>

definition process_country :: "world \<Rightarrow> period \<Rightarrow> country \<Rightarrow> analysis \<Rightarrow> analysis" where
  "process_country W p c st =
     (case trend_stage W c of
        Inl e \<Rightarrow> st\<lparr>results := dict_set (=) c (Error (str_exception e)) (results st)\<rparr>
      | Inr (items, pairs) \<Rightarrow>
          (let st1 = st\<lparr>results := dict_set (=) c (Rising_related_queries pairs) (results st)\<rparr>;
               (d, raised) = shorts_loop W p c 0 items [];
               st2 = st1\<lparr>youtube_results := dict_set (=) c d (youtube_results st1)\<rparr>
           in case raised of
                None \<Rightarrow> st2
              | Some e \<Rightarrow> st2\<lparr>results := dict_set (=) c (Error (str_exception e)) (results st2)\<rparr>))"

fun analysis_loop :: "world \<Rightarrow> period \<Rightarrow> country list \<Rightarrow> analysis \<Rightarrow> analysis" where
  "analysis_loop W p [] st = st"
| "analysis_loop W p (c # cs) st = analysis_loop W p cs (process_country W p c st)"

text \<open>Source lines 150 to 205: both dicts start empty.\<close>

definition run_analysis :: "world \<Rightarrow> period \<Rightarrow> country list \<Rightarrow> analysis" where
  "run_analysis W p selected_countries =
     analysis_loop W p selected_countries \<lparr>results = [], youtube_results = []\<rparr>"

section \<open>The spreadsheet export\<close>

text \<open>
  Source lines 211 to 343. A row of the first sheet, one per video, and a row of the
  second, one per rising query. Cell styling, column widths, row heights, embedded images
  and hyperlinks change no sheet's name or rows and are not modelled.
\<close>

record youtube_row =
  Country :: country
  Search_Query :: json
  Title :: json
  Channel :: json
  Views :: int
  Likes :: int
  Published_Date :: string
  row_url :: string
  thumbnail_url :: string

datatype sheet_data =
    Youtube_sheet "youtube_row list"
  | Trends_sheet "(country \<times> json \<times> json) list"

type_synonym workbook = "(string \<times> sheet_data) list"

text \<open>
  What the export reads from libraries: \<^verbatim>\<open>datetime.strptime(s, "%Y-%m-%dT%H:%M:%SZ")\<close>
  followed by \<^verbatim>\<open>strftime("%Y-%m-%d")\<close> (raising for a string of another format),
  whether \<^verbatim>\<open>DataFrame.to_excel\<close> raises for a sheet, and \<^verbatim>\<open>str()\<close> of a JSON value
  that is not a string.
\<close>

record export_env =
  strptime_date :: "string \<Rightarrow> py_exception + string"
  to_excel_raises :: "string \<Rightarrow> sheet_data \<Rightarrow> py_exception option"
  export_str_of_value :: "json \<Rightarrow> string"

text \<open>\<^verbatim>\<open>strptime\<close> raises \<^verbatim>\<open>TypeError\<close> for an argument that is not a string.\<close>

fun published_date :: "export_env \<Rightarrow> json \<Rightarrow> py_exception + string" where
  "published_date X (JStr s) = strptime_date X s"
| "published_date X _ = Inl TypeError"

text \<open>Source lines 218 to 235, for the videos of one query.\<close>

fun rows_of_shorts :: "export_env \<Rightarrow> country \<Rightarrow> json \<Rightarrow> video_info list \<Rightarrow> py_exception + youtube_row list" where
  "rows_of_shorts X c query [] = Inr []"
| "rows_of_shorts X c query (short # shorts) =
     and_then (published_date X (published_at short)) (\<lambda>date.
     and_then (rows_of_shorts X c query shorts) (\<lambda>rows.
     Inr (\<lparr>Country = c, Search_Query = query, Title = title short,
           Channel = channel_title short, Views = view_count short, Likes = like_count short,
           Published_Date = date, row_url = url short,
           thumbnail_url = ''https://i.ytimg.com/vi/'' @ py_str (export_str_of_value X) (video_id short)
                             @ ''/hqdefault.jpg''\<rparr> # rows)))"

fun rows_of_queries :: "export_env \<Rightarrow> country \<Rightarrow> (json \<times> video_info list) list \<Rightarrow> py_exception + youtube_row list" where
  "rows_of_queries X c [] = Inr []"
| "rows_of_queries X c ((query, shorts) # queries) =
     and_then (rows_of_shorts X c query shorts) (\<lambda>rows.
     and_then (rows_of_queries X c queries) (\<lambda>rest. Inr (rows @ rest)))"

fun youtube_data_of :: "export_env \<Rightarrow> (country \<times> (json \<times> video_info list) list) list \<Rightarrow> py_exception + youtube_row list" where
  "youtube_data_of X [] = Inr []"
| "youtube_data_of X ((c, queries) # countries) =
     and_then (rows_of_queries X c queries) (\<lambda>rows.
     and_then (youtube_data_of X countries) (\<lambda>rest. Inr (rows @ rest)))"

text \<open>
  Source lines 241 to 248: \<^verbatim>\<open>data.get("rising_related_queries", [])\<close> is the empty list
  for a country whose entry records an error.
\<close>

fun trends_data_of :: "(country \<times> country_result) list \<Rightarrow> (country \<times> json \<times> json) list" where
  "trends_data_of [] = []"
| "trends_data_of ((c, Rising_related_queries pairs) # rest) =
     map (\<lambda>(q, v). (c, q, v)) pairs @ trends_data_of rest"
| "trends_data_of ((c, Error msg) # rest) = trends_data_of rest"

text \<open>\<^verbatim>\<open>df.to_excel(writer, sheet_name=name, index=False)\<close> adds a sheet to the book.\<close>

definition to_excel :: "export_env \<Rightarrow> string \<Rightarrow> sheet_data \<Rightarrow> workbook \<Rightarrow> py_exception + workbook" where
  "to_excel X sheet_name rows book =
     (case to_excel_raises X sheet_name rows of
        Some e \<Rightarrow> Inl e
      | None \<Rightarrow> Inr (book @ [(sheet_name, rows)]))"

text \<open>
  The \<^verbatim>\<open>with pd.ExcelWriter(...)\<close> block: the writer's book starts without sheets. An
  exception anywhere in the block reaches the handler of line 342, and no workbook is
  offered for download.
\<close>

definition export_excel :: "export_env \<Rightarrow> analysis \<Rightarrow> py_exception + workbook" where
  "export_excel X st =
     and_then (youtube_data_of X (youtube_results st)) (\<lambda>youtube_data.
     and_then (to_excel X ''YouTube Shorts'' (Youtube_sheet youtube_data) []) (\<lambda>book1.
     to_excel X ''Meme Keyword'' (Trends_sheet (trends_data_of (results st))) book1))"

text \<open>The names of the sheets of the exported workbook, when there is one.\<close>

definition exported_sheet_names :: "export_env \<Rightarrow> analysis \<Rightarrow> string list option" where
  "exported_sheet_names X st =
     (case export_excel X st of Inl e \<Rightarrow> None | Inr book \<Rightarrow> Some (map fst book))"

section \<open>The bulk download\<close>

text \<open>
  A cell of the \<^verbatim>\<open>url\<close> column as \<^verbatim>\<open>pandas.read_excel\<close> delivers it: a string, the
  missing value \<^verbatim>\<open>NaN\<close>, a number, a boolean or a timestamp.
\<close>

datatype cell = Text string | NaN | Number int | Boolean bool | Timestamp string

fun isna :: "cell \<Rightarrow> bool" where
  "isna NaN = True"
| "isna _ = False"

fun isinstance_str :: "cell \<Rightarrow> bool" where
  "isinstance_str (Text s) = True"
| "isinstance_str _ = False"

text \<open>\<^verbatim>\<open>needle in haystack\<close> for strings.\<close>

fun str_contains :: "string \<Rightarrow> string \<Rightarrow> bool" where
  "str_contains needle [] = (needle = [])"
| "str_contains needle (c # cs) = (prefix needle (c # cs) \<or> str_contains needle cs)"

text \<open>
  \<^verbatim>\<open>s.split(sep)\<close> for a separator of one character, reading the string from the left;
  \<open>cur\<close> is the piece read since the last separator. The result is never empty.
\<close>

fun split_from :: "char \<Rightarrow> string \<Rightarrow> string \<Rightarrow> string list" where
  "split_from sep cur [] = [cur]"
| "split_from sep cur (c # cs) =
     (if c = sep then cur # split_from sep [] cs else split_from sep (cur @ [c]) cs)"

definition split_on :: "char \<Rightarrow> string \<Rightarrow> string list" where
  "split_on sep s = split_from sep [] s"

text \<open>Source lines 417 to 419.\<close>

definition normalize_url :: "string \<Rightarrow> string" where
  "normalize_url u =
     (if str_contains ''youtube.com/shorts/'' u
      then (let video_id = last (split_on CHR ''/'' u)
            in ''https://www.youtube.com/watch?v='' @ video_id)
      else u)"

text \<open>Source lines 412 to 420, over the cells of the \<^verbatim>\<open>url\<close> column.\<close>

fun video_links_loop :: "cell list \<Rightarrow> string list \<Rightarrow> string list" where
  "video_links_loop [] video_links = video_links"
| "video_links_loop (c # rows) video_links =
     (if isna c \<or> \<not> isinstance_str c then video_links_loop rows video_links
      else (case c of
              Text u \<Rightarrow> video_links_loop rows (video_links @ [normalize_url u])
            | _ \<Rightarrow> video_links_loop rows video_links))"

text \<open>
  Source lines 441 to 454. \<open>ydl\<close> says, for the \<open>idx\<close>-th attempt and its link, whether the
  download utility raises. The state is \<^verbatim>\<open>downloaded_count\<close> and \<^verbatim>\<open>failed_list\<close>.
\<close>

fun download_loop ::
  "(nat \<Rightarrow> string \<Rightarrow> py_exception option) \<Rightarrow> nat \<Rightarrow> string list \<Rightarrow> nat \<times> (string \<times> string) list
     \<Rightarrow> nat \<times> (string \<times> string) list" where
  "download_loop ydl idx [] st = st"
| "download_loop ydl idx (link # links) (downloaded_count, failed_list) =
     (case ydl idx link of
        None \<Rightarrow> download_loop ydl (Suc idx) links (Suc downloaded_count, failed_list)
      | Some e \<Rightarrow> download_loop ydl (Suc idx) links
                   (downloaded_count, failed_list @ [(link, str_exception e)]))"

record download_report =
  video_links :: "string list"
  num_videos :: nat
  downloaded :: nat
  failed :: "(string \<times> string) list"

text \<open>Source lines 412 to 456.\<close>

definition bulk_download :: "(nat \<Rightarrow> string \<Rightarrow> py_exception option) \<Rightarrow> cell list \<Rightarrow> download_report" where
  "bulk_download ydl cells =
     (let links = video_links_loop cells [];
          (downloaded_count, failed_list) = download_loop ydl 1 links (0, [])
      in \<lparr>video_links = links, num_videos = length links,
          downloaded = downloaded_count, failed = failed_list\<rparr>)"

section \<open>Notions the properties are stated with\<close>

subsection \<open>Duration strings\<close>

text \<open>
  A string of the form \<^verbatim>\<open>PT[nH][nM][nS]\<close>, given by its three optional numbers, each a
  non-empty string of decimal digits.
\<close>

definition digit_string :: "string \<Rightarrow> bool" where
  "digit_string ds \<longleftrightarrow> ds \<noteq> [] \<and> list_all is_digit ds"

definition unit_ok :: "string option \<Rightarrow> bool" where
  "unit_ok g = (case g of None \<Rightarrow> True | Some ds \<Rightarrow> digit_string ds)"

definition unit_part :: "string option \<Rightarrow> char \<Rightarrow> string" where
  "unit_part g u = (case g of None \<Rightarrow> [] | Some ds \<Rightarrow> ds @ [u])"

definition iso_form :: "string option \<Rightarrow> string option \<Rightarrow> string option \<Rightarrow> string" where
  "iso_form h m s = ''PT'' @ unit_part h CHR ''H'' @ unit_part m CHR ''M'' @ unit_part s CHR ''S''"

text \<open>A number is within the limit when it has no more digits than \<^verbatim>\<open>int\<close> converts.\<close>

definition within_limit :: "string option \<Rightarrow> bool" where
  "within_limit g = (case g of None \<Rightarrow> True | Some ds \<Rightarrow> length ds \<le> int_max_str_digits)"

text \<open>What a unit contributes: its number, or zero when it is absent.\<close>

definition unit_amount :: "string option \<Rightarrow> int" where
  "unit_amount g = (case g of None \<Rightarrow> 0 | Some ds \<Rightarrow> int_of_digits ds)"

subsection \<open>Candidates of a detail response\<close>

text \<open>
  An item of the detail response is short when its duration parses to at most 60
  seconds, long when it parses to more.
\<close>

definition short_item :: "json \<Rightarrow> bool" where
  "short_item video = (case video_duration video of Inr d \<Rightarrow> d \<le> 60 | Inl e \<Rightarrow> False)"

definition long_item :: "json \<Rightarrow> bool" where
  "long_item video = (case video_duration video of Inr d \<Rightarrow> 60 < d | Inl e \<Rightarrow> False)"

text \<open>The filtered candidates: the dicts of the short items, in the order of the response.\<close>

definition candidates :: "(json \<Rightarrow> string) \<Rightarrow> json list \<Rightarrow> video_info list" where
  "candidates other items =
     List.map_filter (\<lambda>video. case make_video_info other video of Inr v \<Rightarrow> Some v | Inl e \<Rightarrow> None)
       (filter short_item items)"

subsection \<open>One country's iteration\<close>

text \<open>
  The exception raised inside the \<^verbatim>\<open>try\<close> block of a country's iteration, if any: by the
  trend stage, or else by the loop over the rising queries.
\<close>

definition country_raises :: "world \<Rightarrow> period \<Rightarrow> country \<Rightarrow> py_exception option" where
  "country_raises W p c =
     (case trend_stage W c of
        Inl e \<Rightarrow> Some e
      | Inr (items, pairs) \<Rightarrow> snd (shorts_loop W p c 0 items []))"

text \<open>What the iteration leaves in \<^verbatim>\<open>results[country]\<close>.\<close>

definition results_entry :: "world \<Rightarrow> period \<Rightarrow> country \<Rightarrow> country_result" where
  "results_entry W p c =
     (case trend_stage W c of
        Inl e \<Rightarrow> Error (str_exception e)
      | Inr (items, pairs) \<Rightarrow>
          (case snd (shorts_loop W p c 0 items []) of
             None \<Rightarrow> Rising_related_queries pairs
           | Some e \<Rightarrow> Error (str_exception e)))"

text \<open>
  What the iteration stores in \<^verbatim>\<open>youtube_results[country]\<close>; nothing when the trend
  stage raised.
\<close>

definition youtube_entry :: "world \<Rightarrow> period \<Rightarrow> country \<Rightarrow> (json \<times> video_info list) list option" where
  "youtube_entry W p c =
     (case trend_stage W c of
        Inl e \<Rightarrow> None
      | Inr (items, pairs) \<Rightarrow> Some (fst (shorts_loop W p c 0 items [])))"

text \<open>
  The provider reports no rising entries: the response is an object that has no
  \<^verbatim>\<open>related_queries\<close>, or whose \<^verbatim>\<open>related_queries\<close> is an object in which \<^verbatim>\<open>rising\<close> is
  absent, null or the empty list.
\<close>

definition reports_no_rising :: "json \<Rightarrow> bool" where
  "reports_no_rising data =
     (case data of
        JObj kvs \<Rightarrow>
          (case map_of kvs ''related_queries'' of
             None \<Rightarrow> True
           | Some (JObj rq) \<Rightarrow>
               map_of rq ''rising'' = None \<or> map_of rq ''rising'' = Some JNull
               \<or> map_of rq ''rising'' = Some (JList [])
           | Some _ \<Rightarrow> False)
      | _ \<Rightarrow> False)"

subsection \<open>The export\<close>

text \<open>Every publication timestamp stored in \<^verbatim>\<open>youtube_results\<close> is one the date parser accepts.\<close>

definition dates_parse :: "export_env \<Rightarrow> analysis \<Rightarrow> bool" where
  "dates_parse X st =
     list_all (\<lambda>(c, queries).
       list_all (\<lambda>(query, shorts).
         list_all (\<lambda>short. case published_date X (published_at short) of Inr d \<Rightarrow> True | Inl e \<Rightarrow> False)
           shorts) queries) (youtube_results st)"

section \<open>Sample inputs\<close>

text \<open>A well-formed item of a detail response.\<close>

definition sample_fields :: "string \<Rightarrow> string \<Rightarrow> (string \<times> json) list \<Rightarrow> (string \<times> json) list" where
  "sample_fields ident duration statistics =
     [(''id'', JStr ident),
      (''snippet'', JObj [(''title'', JStr (''video '' @ ident)),
                          (''publishedAt'', JStr ''2024-05-01T12:00:00Z''),
                          (''channelTitle'', JStr ''channel'')]),
      (''contentDetails'', JObj [(''duration'', JStr duration)]),
      (''statistics'', JObj statistics)]"

definition sample_video :: "string \<Rightarrow> string \<Rightarrow> (string \<times> json) list \<Rightarrow> json" where
  "sample_video ident duration statistics = JObj (sample_fields ident duration statistics)"

text \<open>
  Five items: \<open>b\<close> lasts 61 seconds, \<open>c\<close> has no view count, \<open>a\<close> and \<open>d\<close> have the same
  view count.
\<close>

definition sample_items :: "json list" where
  "sample_items =
     [sample_video ''a'' ''PT45S'' [(''viewCount'', JStr ''10''), (''likeCount'', JStr ''1'')],
      sample_video ''b'' ''PT1M1S'' [(''viewCount'', JStr ''999''), (''likeCount'', JStr ''5'')],
      sample_video ''c'' ''PT1M'' [(''likeCount'', JStr ''3'')],
      sample_video ''d'' ''PT30S'' [(''viewCount'', JStr ''10'')],
      sample_video ''e'' ''PT59S'' [(''viewCount'', JStr ''70''), (''likeCount'', JStr ''2'')]]"

definition sample_env :: youtube_env where
  "sample_env =
     \<lparr>api_keys = [''key1'', ''key2''], random_draw = 3, build = (\<lambda>key. None),
      period_ago_of = (\<lambda>days. Inr ''2024-01-01T00:00:00Z''),
      search_list = (\<lambda>key text since. Inr (JObj [(''items'',
         JList (map (\<lambda>i. JObj [(''id'', JObj [(''videoId'', JStr i)])])
                  [''a'', ''b'', ''c'', ''d'', ''e'']))])),
      videos_list = (\<lambda>key ids. Inr (JObj [(''items'', JList sample_items)])),
      str_of_value = (\<lambda>j. ''?'')\<rparr>"

text \<open>The same platform when every search request is refused.\<close>

definition quota_env :: youtube_env where
  "quota_env = sample_env\<lparr>search_list := (\<lambda>key text since. Inl (LibraryError ''quotaExceeded''))\<rparr>"

text \<open>
  A provider that times out for Korea, reports twenty rising queries for the United
  States and none for Japan; the first video search of a country sees \<open>sample_env\<close>, the
  later ones \<open>quota_env\<close>.
\<close>

definition rising_item :: "char \<Rightarrow> json" where
  "rising_item c = JObj [(''query'', JStr [c]), (''value'', JInt 100)]"

definition sample_world :: world where
  "sample_world =
     \<lparr>SERPAPI_API_KEY = ''secret'',
      requests_get = (\<lambda>params.
        if map_of params ''geo'' = Some ''KR'' then Inl (LibraryError ''timeout'')
        else if map_of params ''geo'' = Some ''US''
        then Inr \<lparr>status_code = 200, json_body = Inr (JObj [(''related_queries'',
               JObj [(''rising'', JList (map rising_item ''abcdefghijklmnopqrst''))])])\<rparr>
        else Inr \<lparr>status_code = 200, json_body = Inr (JObj [(''search_metadata'', JObj [])])\<rparr>),
      youtube = (\<lambda>c n. if n = 0 then sample_env else quota_env)\<rparr>"

text \<open>Libraries that accept every sheet and read the date off the first ten characters.\<close>

definition sample_export_env :: export_env where
  "sample_export_env =
     \<lparr>strptime_date = (\<lambda>s. Inr (take 10 s)), to_excel_raises = (\<lambda>name rows. None),
      export_str_of_value = (\<lambda>j. ''?'')\<rparr>"

text \<open>A download utility that fails on every link that is not a watch URL.\<close>

definition sample_ydl :: "nat \<Rightarrow> string \<Rightarrow> py_exception option" where
  "sample_ydl idx link =
     (if prefix ''https://www.youtube.com/watch?v='' link then None
      else Some (LibraryError ''unsupported URL''))"

definition sample_cells :: "cell list" where
  "sample_cells =
     [Text ''https://youtube.com/shorts/XYZ'', NaN, Number 7,
      Text ''https://www.youtube.com/watch?v=abc'', Text ''not a link'']"

section \<open>Properties of the duration parser\<close>

lemma is_digit_not_space: "is_digit c \<Longrightarrow> \<not> is_space c"
  by (auto simp: is_digit_def is_space_def)

lemma digit_value_nonneg: "is_digit c \<Longrightarrow> 0 \<le> digit_value c"
  by (auto simp: is_digit_def digit_value_def)

lemma foldl_digits_nonneg:
  "list_all is_digit ds \<Longrightarrow> 0 \<le> a \<Longrightarrow> 0 \<le> foldl (\<lambda>acc c. 10 * acc + digit_value c) a ds"
  by (induction ds arbitrary: a) (auto simp: digit_value_nonneg)

lemma int_of_digits_nonneg: "list_all is_digit ds \<Longrightarrow> 0 \<le> int_of_digits ds"
  by (simp add: int_of_digits_def foldl_digits_nonneg)

lemma digits_ok_all: "ds \<noteq> [] \<Longrightarrow> list_all is_digit ds \<Longrightarrow> digits_ok ds"
  by (induction ds rule: digits_ok.induct) (auto simp: is_digit_def)

lemma strip_digits: "ds \<noteq> [] \<Longrightarrow> list_all is_digit ds \<Longrightarrow> strip ds = ds"
proof -
  assume ne: "ds \<noteq> []" and dig: "list_all is_digit ds"
  have "is_digit (hd ds)" "is_digit (last ds)"
    using ne dig by (auto simp: list_all_iff)
  then have a: "\<not> is_space (hd ds)" and b: "\<not> is_space (hd (rev ds))"
    using ne by (auto simp: is_digit_not_space hd_rev)
  have "dropWhile is_space ds = ds"
    using a ne by (simp add: dropWhile_eq_self_iff)
  moreover have "dropWhile is_space (rev ds) = rev ds"
    using b ne by (simp add: dropWhile_eq_self_iff)
  ultimately show ?thesis
    by (simp add: strip_def)
qed

lemma filter_underscore_digits:
  "list_all is_digit ds \<Longrightarrow> filter (\<lambda>c. c \<noteq> CHR ''_'') ds = ds"
  by (induction ds) (auto simp: is_digit_def)

lemma int_of_str_digits:
  "digit_string ds \<Longrightarrow>
     int_of_str ds = (if length ds \<le> int_max_str_digits then Inr (int_of_digits ds) else Inl ValueError)"
proof -
  assume d: "digit_string ds"
  then have ne: "ds \<noteq> []" and dig: "list_all is_digit ds"
    by (simp_all add: digit_string_def)
  have hd: "is_digit (hd ds)"
    using ne dig by (auto simp: list_all_iff)
  then have nosign: "hd ds \<noteq> CHR ''-''" "hd ds \<noteq> CHR ''+''"
    by (auto simp: is_digit_def)
  show ?thesis
    using ne dig nosign
    by (simp add: int_of_str_def Let_def strip_digits digits_ok_all filter_underscore_digits)
qed

lemma group_value_digits:
  "unit_ok g \<Longrightarrow>
     group_value g = (if within_limit g then Inr (unit_amount g) else Inl ValueError)"
  by (cases g) (auto simp: group_value_def unit_ok_def unit_amount_def within_limit_def
      int_of_str_digits digit_string_def)

lemma group_value_cases: "unit_ok g \<Longrightarrow> group_value g = Inl ValueError \<or> (\<exists>n. group_value g = Inr n \<and> 0 \<le> n)"
  by (cases g) (auto simp: group_value_def unit_ok_def int_of_str_digits digit_string_def
      int_of_digits_nonneg)

lemma unit_amount_nonneg: "unit_ok g \<Longrightarrow> 0 \<le> unit_amount g"
  by (cases g) (auto simp: unit_ok_def unit_amount_def digit_string_def int_of_digits_nonneg)

lemma optional_group_Nil: "optional_group u [] = (None, [])"
  by (simp add: optional_group_def)

lemma optional_group_digits:
  assumes "digit_string ds" "\<not> is_digit v"
  shows "optional_group u (ds @ v # rest) = (if v = u then (Some ds, rest) else (None, ds @ v # rest))"
proof -
  have all: "\<forall>c\<in>set ds. is_digit c" and ne: "ds \<noteq> []"
    using assms(1) by (simp_all add: digit_string_def list_all_iff)
  have "takeWhile is_digit (ds @ v # rest) = ds"
    using all assms(2) by (simp add: takeWhile_append2)
  moreover have "dropWhile is_digit (ds @ v # rest) = v # rest"
    using all assms(2) by (simp add: dropWhile_append2)
  ultimately show ?thesis
    using ne by (simp add: optional_group_def)
qed

lemma optional_group_captures:
  "optional_group u s = (Some ds, r) \<Longrightarrow> digit_string ds"
  by (auto simp: optional_group_def Let_def digit_string_def list_all_iff split: if_splits
      dest: set_takeWhileD)

lemma optional_group_unit_ok: "unit_ok (fst (optional_group u s))"
  by (cases "optional_group u s") (auto simp: unit_ok_def dest: optional_group_captures split: option.splits)

lemma re_match_duration_prefix: "re_match_duration s = None \<longleftrightarrow> \<not> prefix ''PT'' s"
proof -
  have "take 2 s = ''PT'' \<longleftrightarrow> prefix ''PT'' s"
    by (cases s; cases "tl s") (auto simp: numeral_2_eq_2)
  then show ?thesis
    by (simp add: re_match_duration_def split: prod.splits)
qed

lemma duration_of_groups:
  "unit_ok h \<Longrightarrow> unit_ok m \<Longrightarrow> unit_ok sec \<Longrightarrow> re_match_duration s = Some (h, m, sec) \<Longrightarrow>
   duration_of_string s =
     (if within_limit h \<and> within_limit m \<and> within_limit sec
      then Inr (unit_amount h * 3600 + unit_amount m * 60 + unit_amount sec)
      else Inl ValueError)"
  by (simp add: duration_of_string_def group_value_digits and_then_def)

lemma is_digit_units: "\<not> is_digit CHR ''H''" "\<not> is_digit CHR ''M''" "\<not> is_digit CHR ''S''"
  by (simp_all add: is_digit_def)

lemma re_match_iso_form:
  assumes "unit_ok h" "unit_ok m" "unit_ok sec"
  shows "re_match_duration (iso_form h m sec) = Some (h, m, sec)"
proof -
  let ?ms = "unit_part m CHR ''M'' @ unit_part sec CHR ''S''"
  have s: "optional_group CHR ''S'' (unit_part sec CHR ''S'') = (sec, [])"
    using assms(3)
    by (cases sec) (simp_all add: unit_part_def unit_ok_def optional_group_Nil
        optional_group_digits is_digit_units)
  have m: "optional_group CHR ''M'' ?ms = (m, unit_part sec CHR ''S'')"
    using assms(2,3)
    by (cases m; cases sec) (simp_all add: unit_part_def unit_ok_def optional_group_Nil
        optional_group_digits is_digit_units)
  have h: "optional_group CHR ''H'' (unit_part h CHR ''H'' @ ?ms) = (h, ?ms)"
    using assms
    by (cases h; cases m; cases sec) (simp_all add: unit_part_def unit_ok_def
        optional_group_Nil optional_group_digits is_digit_units)
  show ?thesis
    by (simp add: re_match_duration_def iso_form_def h m s)
qed

lemma re_match_groups_ok:
  assumes "re_match_duration s = Some (h, m, sec)"
  shows "unit_ok h \<and> unit_ok m \<and> unit_ok sec"
proof -
  obtain r1 where h: "optional_group CHR ''H'' (drop 2 s) = (h, r1)"
    using assms by (auto simp: re_match_duration_def split: if_splits prod.splits)
  obtain r2 where m: "optional_group CHR ''M'' r1 = (m, r2)"
    using assms h by (auto simp: re_match_duration_def split: if_splits prod.splits)
  obtain r3 where s: "optional_group CHR ''S'' r2 = (sec, r3)"
    using assms h m by (auto simp: re_match_duration_def split: if_splits prod.splits)
  show ?thesis
    using optional_group_unit_ok [of "CHR ''H''" "drop 2 s"]
      optional_group_unit_ok [of "CHR ''M''" r1] optional_group_unit_ok [of "CHR ''S''" r2]
    by (simp add: h m s)
qed

lemma optional_group_length:
  "optional_group u s = (g, r) \<Longrightarrow> length r \<le> length s \<and> (\<forall>ds. g = Some ds \<longrightarrow> length ds \<le> length s)"
proof -
  assume a: "optional_group u s = (g, r)"
  have "length (takeWhile is_digit s) \<le> length s"
    by (rule length_takeWhile_le)
  moreover have "length (tl (dropWhile is_digit s)) \<le> length s"
    using length_dropWhile_le [of is_digit s] by simp
  ultimately show ?thesis
    using a by (auto simp: optional_group_def Let_def split: if_splits)
qed

lemma re_match_groups_short:
  assumes "re_match_duration s = Some (h, m, sec)" "length s \<le> int_max_str_digits"
  shows "within_limit h \<and> within_limit m \<and> within_limit sec"
proof -
  obtain r1 where h: "optional_group CHR ''H'' (drop 2 s) = (h, r1)"
    using assms(1) by (auto simp: re_match_duration_def split: if_splits prod.splits)
  obtain r2 where m: "optional_group CHR ''M'' r1 = (m, r2)"
    using assms(1) h by (auto simp: re_match_duration_def split: if_splits prod.splits)
  obtain r3 where s: "optional_group CHR ''S'' r2 = (sec, r3)"
    using assms(1) h m by (auto simp: re_match_duration_def split: if_splits prod.splits)
  have 0: "length (drop 2 s) \<le> length s"
    by simp
  from optional_group_length [OF h] optional_group_length [OF m] optional_group_length [OF s] 0
  have "length r1 \<le> length s" "length r2 \<le> length s"
    "\<forall>ds. h = Some ds \<longrightarrow> length ds \<le> length s"
    "\<forall>ds. m = Some ds \<longrightarrow> length ds \<le> length s"
    "\<forall>ds. sec = Some ds \<longrightarrow> length ds \<le> length s"
    by auto
  with assms(2) show ?thesis
    by (auto simp: within_limit_def split: option.splits)
qed

lemma long_digit_string: "digit_string (replicate 4301 CHR ''1'')"
  by (simp add: digit_string_def list_all_iff is_digit_def)

text \<open>
  C3, as the spec states it, fails: a string of the form \<^verbatim>\<open>PT[nS]\<close> whose number has
  4301 digits makes \<^verbatim>\<open>int\<close> raise \<^verbatim>\<open>ValueError\<close>; the parser neither maps it to its
  seconds nor returns an integer.
\<close>

theorem duration_parser_counterexample:
  "unit_ok (Some (replicate 4301 CHR ''1''))
   \<and> iso_form None None (Some (replicate 4301 CHR ''1'')) = ''PT'' @ replicate 4301 CHR ''1'' @ ''S''
   \<and> parse_iso8601_duration (JStr (''PT'' @ replicate 4301 CHR ''1'' @ ''S'')) = Inl ValueError"
proof -
  let ?n = "Some (replicate 4301 CHR ''1'')"
  have ok: "unit_ok None" "unit_ok ?n"
    by (simp_all add: unit_ok_def long_digit_string)
  have form: "iso_form None None ?n = ''PT'' @ replicate 4301 CHR ''1'' @ ''S''"
    by (simp add: iso_form_def unit_part_def)
  have over: "\<not> within_limit ?n"
    by (simp add: within_limit_def int_max_str_digits_def)
  have "duration_of_string (iso_form None None ?n) = Inl ValueError"
    using duration_of_groups [OF ok(1) ok(1) ok(2) re_match_iso_form [OF ok(1) ok(1) ok(2)]] over
    by simp
  then have "parse_iso8601_duration (JStr (''PT'' @ replicate 4301 CHR ''1'' @ ''S'')) = Inl ValueError"
    by (simp only: form parse_iso8601_duration.simps)
  with ok(2) form show ?thesis
    by (intro conjI)
qed

text \<open>
  C3, amended. The duration parser maps a string of the form \<^verbatim>\<open>PT[nH][nM][nS]\<close> in
  which no number has more than 4300 digits to hours * 3600 + minutes * 60 + seconds, an
  absent unit contributing zero; in particular \<^verbatim>\<open>PT1H2M3S\<close> gives 3723, \<^verbatim>\<open>PT45S\<close> gives
  45 and \<^verbatim>\<open>PT\<close> gives 0. A string the pattern does not match, which is a string that
  does not start with \<^verbatim>\<open>PT\<close>, gives 0. When a number of the form has more than 4300
  digits the parser raises \<^verbatim>\<open>ValueError\<close>. For every string the parser either returns an
  integer that is not negative or raises \<^verbatim>\<open>ValueError\<close>, and it returns for every string
  of at most 4300 characters.
\<close>

theorem duration_parser:
  "(\<forall>h m sec. unit_ok h \<and> unit_ok m \<and> unit_ok sec
        \<and> within_limit h \<and> within_limit m \<and> within_limit sec \<longrightarrow>
      parse_iso8601_duration (JStr (iso_form h m sec))
        = Inr (unit_amount h * 3600 + unit_amount m * 60 + unit_amount sec))
   \<and> parse_iso8601_duration (JStr ''PT1H2M3S'') = Inr 3723
   \<and> parse_iso8601_duration (JStr ''PT45S'') = Inr 45
   \<and> parse_iso8601_duration (JStr ''PT'') = Inr 0
   \<and> (\<forall>s. re_match_duration s = None \<longrightarrow> parse_iso8601_duration (JStr s) = Inr 0)
   \<and> (\<forall>s. \<not> prefix ''PT'' s \<longrightarrow> re_match_duration s = None)
   \<and> (\<forall>h m sec. unit_ok h \<and> unit_ok m \<and> unit_ok sec
        \<and> \<not> (within_limit h \<and> within_limit m \<and> within_limit sec) \<longrightarrow>
      parse_iso8601_duration (JStr (iso_form h m sec)) = Inl ValueError)
   \<and> (\<forall>s. (\<exists>n. parse_iso8601_duration (JStr s) = Inr n \<and> 0 \<le> n)
          \<or> parse_iso8601_duration (JStr s) = Inl ValueError)
   \<and> (\<forall>s. length s \<le> int_max_str_digits \<longrightarrow>
          (\<exists>n. parse_iso8601_duration (JStr s) = Inr n \<and> 0 \<le> n))"
proof -
  have general: "parse_iso8601_duration (JStr (iso_form h m sec))
        = Inr (unit_amount h * 3600 + unit_amount m * 60 + unit_amount sec)"
    if "unit_ok h" "unit_ok m" "unit_ok sec" "within_limit h" "within_limit m" "within_limit sec"
    for h m sec
    using that by (simp add: duration_of_groups re_match_iso_form)
  have small: "within_limit None" "within_limit (Some ''1'')" "within_limit (Some ''2'')"
    "within_limit (Some ''3'')" "within_limit (Some ''45'')"
    by (simp_all add: within_limit_def int_max_str_digits_def)
  have e1: "parse_iso8601_duration (JStr ''PT1H2M3S'') = Inr 3723"
    using general [of "Some ''1''" "Some ''2''" "Some ''3''"] small
    by (simp add: unit_ok_def digit_string_def is_digit_def iso_form_def unit_part_def
        unit_amount_def int_of_digits_def digit_value_def)
  have e2: "parse_iso8601_duration (JStr ''PT45S'') = Inr 45"
    using general [of None None "Some ''45''"] small
    by (simp add: unit_ok_def digit_string_def is_digit_def iso_form_def unit_part_def
        unit_amount_def int_of_digits_def digit_value_def)
  have e3: "parse_iso8601_duration (JStr ''PT'') = Inr 0"
    using general [of None None None] small
    by (simp add: unit_ok_def iso_form_def unit_part_def unit_amount_def)
  have nomatch: "parse_iso8601_duration (JStr s) = Inr 0" if "re_match_duration s = None" for s
    using that by (simp add: duration_of_string_def group_value_def and_then_def)
  have over: "parse_iso8601_duration (JStr (iso_form h m sec)) = Inl ValueError"
    if "unit_ok h" "unit_ok m" "unit_ok sec"
      "\<not> (within_limit h \<and> within_limit m \<and> within_limit sec)" for h m sec
    using that duration_of_groups [OF that(1-3) re_match_iso_form [OF that(1-3)]] by auto
  have either: "(\<exists>n. parse_iso8601_duration (JStr s) = Inr n \<and> 0 \<le> n)
          \<or> parse_iso8601_duration (JStr s) = Inl ValueError" for s
  proof (cases "re_match_duration s")
    case None
    then show ?thesis using nomatch [of s] by simp
  next
    case (Some g)
    obtain h m sec where g: "g = (h, m, sec)" by (cases g)
    have ok: "unit_ok h" "unit_ok m" "unit_ok sec"
      using Some g re_match_groups_ok by blast+
    show ?thesis
      using Some g ok by (simp add: duration_of_groups unit_amount_nonneg)
  qed
  have short: "\<exists>n. parse_iso8601_duration (JStr s) = Inr n \<and> 0 \<le> n"
    if "length s \<le> int_max_str_digits" for s
  proof (cases "re_match_duration s")
    case None
    then show ?thesis using nomatch [of s] by simp
  next
    case (Some g)
    obtain h m sec where g: "g = (h, m, sec)" by (cases g)
    have ok: "unit_ok h" "unit_ok m" "unit_ok sec"
      using Some g re_match_groups_ok by blast+
    have lim: "within_limit h \<and> within_limit m \<and> within_limit sec"
      using Some g that by (simp add: re_match_groups_short)
    show ?thesis
      using Some g ok lim by (simp add: duration_of_groups unit_amount_nonneg)
  qed
  show ?thesis
    using general e1 e2 e3 nomatch over either short
    by (simp add: re_match_duration_prefix)
qed

theorem duration_parser_witness:
  "unit_ok None \<and> unit_ok (Some ''10'') \<and> unit_ok (Some ''05'')
   \<and> within_limit None \<and> within_limit (Some ''10'') \<and> within_limit (Some ''05'')
   \<and> parse_iso8601_duration (JStr ''PT10M05S'') = Inr 605
   \<and> re_match_duration ''P1DT2H'' = None
   \<and> parse_iso8601_duration (JStr ''P1DT2H'') = Inr 0
   \<and> unit_ok (Some (replicate 4301 CHR ''7'')) \<and> \<not> within_limit (Some (replicate 4301 CHR ''7''))
   \<and> parse_iso8601_duration (JStr (iso_form (Some (replicate 4301 CHR ''7'')) None None))
       = Inl ValueError"
proof -
  have ok: "unit_ok None" "unit_ok (Some ''10'')" "unit_ok (Some ''05'')"
    by (simp_all add: unit_ok_def digit_string_def is_digit_def)
  have lim: "within_limit None" "within_limit (Some ''10'')" "within_limit (Some ''05'')"
    by (simp_all add: within_limit_def int_max_str_digits_def)
  have "parse_iso8601_duration (JStr (iso_form None (Some ''10'') (Some ''05'')))
          = Inr (unit_amount None * 3600 + unit_amount (Some ''10'') * 60 + unit_amount (Some ''05''))"
    using duration_parser ok lim by blast
  then have a: "parse_iso8601_duration (JStr ''PT10M05S'') = Inr 605"
    by (simp add: iso_form_def unit_part_def unit_amount_def int_of_digits_def digit_value_def)
  have n: "re_match_duration ''P1DT2H'' = None"
    by (simp add: re_match_duration_def)
  have z: "parse_iso8601_duration (JStr ''P1DT2H'') = Inr 0"
    using duration_parser n by blast
  have big: "unit_ok (Some (replicate 4301 CHR ''7''))"
    by (simp add: unit_ok_def digit_string_def list_all_iff is_digit_def)
  have nolim: "\<not> within_limit (Some (replicate 4301 CHR ''7''))"
    by (simp add: within_limit_def int_max_str_digits_def)
  have r: "parse_iso8601_duration (JStr (iso_form (Some (replicate 4301 CHR ''7'')) None None))
       = Inl ValueError"
    using duration_parser big ok(1) nolim by blast
  from ok lim a n z big nolim r show ?thesis
    by (intro conjI)
qed

section \<open>Properties of the video discovery\<close>

lemma and_then_Inr:
  "and_then m f = Inr y \<longleftrightarrow> (\<exists>x. m = Inr x \<and> f x = Inr y)"
  by (cases m) (auto simp: and_then_def)

lemma and_then_Inl:
  "and_then m f = Inl e \<longleftrightarrow> m = Inl e \<or> (\<exists>x. m = Inr x \<and> f x = Inl e)"
  by (cases m) (auto simp: and_then_def)

lemma and_then_simps:
  "and_then (Inl e) f = Inl e" "and_then (Inr x) f = f x"
  by (simp_all add: and_then_def)

lemma candidates_Nil: "candidates other [] = []"
  by (simp add: candidates_def map_filter_simps)

lemma candidates_Cons:
  "candidates other (video # rest) =
     (if short_item video
      then (case make_video_info other video of Inr v \<Rightarrow> v # candidates other rest
            | Inl e \<Rightarrow> candidates other rest)
      else candidates other rest)"
  by (simp add: candidates_def map_filter_simps split: sum.splits)

lemma candidates_mem:
  "v \<in> set (candidates other items) \<longleftrightarrow>
     (\<exists>video\<in>set items. short_item video \<and> make_video_info other video = Inr v)"
  by (induction items) (auto simp: candidates_Nil candidates_Cons split: sum.splits)

lemma collect_videos_candidates:
  "collect_videos other items acc = Inr vs \<Longrightarrow> vs = acc @ candidates other items"
proof (induction items arbitrary: acc)
  case Nil
  then show ?case by (simp add: candidates_Nil)
next
  case (Cons video rest)
  from Cons.prems obtain d where d: "video_duration video = Inr d"
    by (auto simp: and_then_Inr)
  show ?case
  proof (cases "d \<le> 60")
    case True
    with Cons.prems d obtain v where v: "make_video_info other video = Inr v"
      and rest: "collect_videos other rest (acc @ [v]) = Inr vs"
      by (auto simp: and_then_simps and_then_Inr)
    from Cons.IH [OF rest] show ?thesis
      using True d v by (simp add: candidates_Cons short_item_def)
  next
    case False
    with Cons.prems d have "collect_videos other rest acc = Inr vs"
      by (simp add: and_then_simps)
    from Cons.IH [OF this] show ?thesis
      using False d by (simp add: candidates_Cons short_item_def)
  qed
qed

lemma collect_videos_items:
  "collect_videos other items acc = Inr vs \<Longrightarrow> video \<in> set items \<Longrightarrow>
     \<exists>d. video_duration video = Inr d \<and> (d \<le> 60 \<longrightarrow> (\<exists>v. make_video_info other video = Inr v))"
proof (induction items arbitrary: acc)
  case Nil
  then show ?case by simp
next
  case (Cons x rest)
  from Cons.prems(1) obtain d where d: "video_duration x = Inr d"
    by (auto simp: and_then_Inr)
  show ?case
  proof (cases "d \<le> 60")
    case True
    with Cons.prems d obtain v where v: "make_video_info other x = Inr v"
      and rest: "collect_videos other rest (acc @ [v]) = Inr vs"
      by (auto simp: and_then_simps and_then_Inr)
    show ?thesis
      using Cons.IH [OF rest] Cons.prems(2) d v by auto
  next
    case False
    with Cons.prems d have rest: "collect_videos other rest acc = Inr vs"
      by (simp add: and_then_simps)
    show ?thesis
      using Cons.IH [OF rest] Cons.prems(2) d False by auto
  qed
qed

lemma collect_videos_drop_long:
  "collect_videos other (filter (\<lambda>v. \<not> long_item v) items) acc = collect_videos other items acc"
proof (induction items arbitrary: acc)
  case Nil
  then show ?case by simp
next
  case (Cons x rest)
  show ?case
  proof (cases "video_duration x")
    case (Inl e)
    then show ?thesis by (simp add: long_item_def and_then_simps)
  next
    case (Inr d)
    then show ?thesis
      using Cons.IH by (cases "d \<le> 60") (simp_all add: long_item_def and_then_simps)
  qed
qed

lemma set_sorted_reverse: "set (sorted_reverse key xs) = set xs"
  by (simp add: sorted_reverse_def)

lemma mset_sorted_reverse: "mset (sorted_reverse key xs) = mset xs"
  by (simp add: sorted_reverse_def)

lemma length_sorted_reverse: "length (sorted_reverse key xs) = length xs"
  by (simp add: sorted_reverse_def)

lemma sorted_reverse_descending:
  "sorted_wrt (\<lambda>a b. key b \<le> key a) (sorted_reverse key xs)"
proof -
  have "sorted (map key (sort_key key (rev xs)))"
    by simp
  then have "sorted_wrt (\<lambda>a b. key a \<le> key b) (sort_key key (rev xs))"
    by (simp add: sorted_map)
  then show ?thesis
    by (simp add: sorted_reverse_def sorted_wrt_rev)
qed

lemma sorted_reverse_stable:
  "filter (\<lambda>v. key v = k) (sorted_reverse key xs) = filter (\<lambda>v. key v = k) xs"
  by (simp add: sorted_reverse_def rev_filter [symmetric] sort_key_stable)

lemma slice_to_take: "\<exists>n. slice_to m xs = take n xs"
  by (auto simp: slice_to_def)

lemma slice_to_length: "0 \<le> m \<Longrightarrow> int (length (slice_to m xs)) \<le> m"
  by (auto simp: slice_to_def)

lemma slice_to_all: "int (length xs) \<le> m \<Longrightarrow> slice_to m xs = xs"
  by (auto simp: slice_to_def)

lemma filter_take_prefix: "prefix (filter P (take n xs)) (filter P xs)"
proof -
  have "filter P xs = filter P (take n xs) @ filter P (drop n xs)"
    by (metis append_take_drop_id filter_append)
  then show ?thesis
    by (simp add: prefix_def)
qed

lemma mset_take_subseteq: "mset (take n xs) \<subseteq># mset xs"
  by (metis append_take_drop_id mset_append mset_subset_eq_add_left)

lemma get_youtube_shorts_rank:
  assumes "fetch_video_items E q days = Inr items"
  shows "get_youtube_shorts E q days mr =
           (case rank_videos (str_of_value E) items mr of Inl e \<Rightarrow> [] | Inr vs \<Rightarrow> vs)"
  using assms by (simp add: get_youtube_shorts_def get_youtube_shorts_try_def and_then_simps)

lemma rank_videos_Inr:
  "rank_videos other items mr = Inr out \<longleftrightarrow>
     collect_videos other items [] = Inr (candidates other items) \<and>
     out = slice_to mr (sorted_reverse view_count (candidates other items))"
  using collect_videos_candidates [of other items "[]"]
  by (auto simp: rank_videos_def and_then_Inr)

lemma rank_videos_drop_long:
  "rank_videos other (filter (\<lambda>v. \<not> long_item v) items) mr = rank_videos other items mr"
  by (simp add: rank_videos_def collect_videos_drop_long)

text \<open>
  C1. Every entry of the ranked output of the video discovery stage is the dict of an
  item of the detail response whose parsed duration is at most 60 seconds. The items
  whose parsed duration exceeds 60 seconds are excluded: the output holds no more copies
  of a dict than short items produce it, and it is the output the stage would give had
  the detail response not contained the long items at all.
\<close>

theorem shorts_within_sixty_seconds:
  assumes "fetch_video_items E q days = Inr items"
  shows "(\<forall>v\<in>set (get_youtube_shorts E q days mr).
            \<exists>video\<in>set items. \<exists>d. video_duration video = Inr d \<and> d \<le> 60
              \<and> make_video_info (str_of_value E) video = Inr v)
       \<and> mset (get_youtube_shorts E q days mr) \<subseteq># mset (candidates (str_of_value E) items)
       \<and> get_youtube_shorts E q days mr =
           (case rank_videos (str_of_value E) (filter (\<lambda>video. \<not> long_item video) items) mr of
              Inl e \<Rightarrow> [] | Inr vs \<Rightarrow> vs)"
proof -
  let ?o = "str_of_value E"
  let ?out = "get_youtube_shorts E q days mr"
  have out: "?out = (case rank_videos ?o items mr of Inl e \<Rightarrow> [] | Inr vs \<Rightarrow> vs)"
    by (rule get_youtube_shorts_rank [OF assms])
  have sub: "mset ?out \<subseteq># mset (candidates ?o items)"
  proof (cases "rank_videos ?o items mr")
    case (Inl e)
    then show ?thesis by (simp add: out)
  next
    case (Inr vs)
    then have "vs = slice_to mr (sorted_reverse view_count (candidates ?o items))"
      by (simp add: rank_videos_Inr)
    then obtain n where "vs = take n (sorted_reverse view_count (candidates ?o items))"
      using slice_to_take by metis
    then have "mset vs \<subseteq># mset (candidates ?o items)"
      using mset_take_subseteq [of n "sorted_reverse view_count (candidates ?o items)"]
      by (simp add: mset_sorted_reverse)
    then show ?thesis by (simp add: out Inr)
  qed
  have each: "\<exists>video\<in>set items. \<exists>d. video_duration video = Inr d \<and> d \<le> 60
              \<and> make_video_info ?o video = Inr v" if "v \<in> set ?out" for v
  proof -
    from that sub have "v \<in> set (candidates ?o items)"
      by (meson mset_subset_eqD set_mset_mset in_multiset_in_set)
    then obtain video where "video \<in> set items" "short_item video" "make_video_info ?o video = Inr v"
      by (auto simp: candidates_mem)
    then show ?thesis
      by (auto simp: short_item_def split: sum.splits)
  qed
  show ?thesis
    using each sub out by (simp add: rank_videos_drop_long)
qed

theorem shorts_within_sixty_seconds_witness:
  "fetch_video_items sample_env (JStr ''cat'') 7 = Inr sample_items
   \<and> map long_item sample_items = [False, True, False, False, False]
   \<and> map video_id (get_youtube_shorts sample_env (JStr ''cat'') 7 5)
       = [JStr ''e'', JStr ''a'', JStr ''d'', JStr ''c'']
   \<and> mset (get_youtube_shorts sample_env (JStr ''cat'') 7 5)
       \<subseteq># mset (candidates (str_of_value sample_env) sample_items)"
proof -
  have f: "fetch_video_items sample_env (JStr ''cat'') 7 = Inr sample_items"
    by code_simp
  have l: "map long_item sample_items = [False, True, False, False, False]"
    by code_simp
  have o: "map video_id (get_youtube_shorts sample_env (JStr ''cat'') 7 5)
       = [JStr ''e'', JStr ''a'', JStr ''d'', JStr ''c'']"
    by code_simp
  have m: "mset (get_youtube_shorts sample_env (JStr ''cat'') 7 5)
       \<subseteq># mset (candidates (str_of_value sample_env) sample_items)"
    using shorts_within_sixty_seconds [OF f, of 5] by (rule conjunct1 [OF conjunct2])
  from f l o m show ?thesis
    by (intro conjI)
qed

text \<open>
  C2. The ranked output of the video discovery stage is sorted by view count in
  descending order and has at most 5 entries, and the entries with one view count are
  the first ones of the filtered candidates with that view count, in the order of the
  detail response (the sort is stable).
\<close>

theorem ranked_by_views_top_five:
  assumes "fetch_video_items E q days = Inr items"
  shows "sorted_wrt (\<lambda>a b. view_count b \<le> view_count a) (get_youtube_shorts E q days default_max_results)
       \<and> length (get_youtube_shorts E q days default_max_results) \<le> 5
       \<and> (\<forall>k. prefix (filter (\<lambda>v. view_count v = k) (get_youtube_shorts E q days default_max_results))
                     (filter (\<lambda>v. view_count v = k) (candidates (str_of_value E) items)))"
proof -
  let ?o = "str_of_value E"
  let ?c = "candidates ?o items"
  let ?out = "get_youtube_shorts E q days default_max_results"
  have out: "?out = (case rank_videos ?o items default_max_results of Inl e \<Rightarrow> [] | Inr vs \<Rightarrow> vs)"
    by (rule get_youtube_shorts_rank [OF assms])
  show ?thesis
  proof (cases "rank_videos ?o items default_max_results")
    case (Inl e)
    then show ?thesis by (simp add: out)
  next
    case (Inr vs)
    then have vs: "vs = slice_to 5 (sorted_reverse view_count ?c)"
      by (simp add: rank_videos_Inr default_max_results_def)
    then have take: "vs = take 5 (sorted_reverse view_count ?c)"
      by (simp add: slice_to_def)
    have 1: "sorted_wrt (\<lambda>a b. view_count b \<le> view_count a) vs"
      unfolding take by (rule sorted_wrt_take) (rule sorted_reverse_descending)
    have 2: "length vs \<le> 5"
      by (simp add: take)
    have 3: "prefix (filter (\<lambda>v. view_count v = k) vs) (filter (\<lambda>v. view_count v = k) ?c)" for k
      using filter_take_prefix [of "\<lambda>v. view_count v = k" 5 "sorted_reverse view_count ?c"]
      by (simp add: take sorted_reverse_stable)
    show ?thesis
      using 1 2 3 by (simp add: out Inr)
  qed
qed

theorem ranked_by_views_top_five_witness:
  "fetch_video_items sample_env (JStr ''cat'') 7 = Inr sample_items
   \<and> sorted_wrt (\<lambda>a b. view_count b \<le> view_count a)
        (get_youtube_shorts sample_env (JStr ''cat'') 7 default_max_results)
   \<and> length (get_youtube_shorts sample_env (JStr ''cat'') 7 default_max_results) \<le> 5
   \<and> map view_count (get_youtube_shorts sample_env (JStr ''cat'') 7 default_max_results)
       = [70, 10, 10, 0]
   \<and> map video_id (get_youtube_shorts sample_env (JStr ''cat'') 7 default_max_results)
       = [JStr ''e'', JStr ''a'', JStr ''d'', JStr ''c'']
   \<and> map video_id (candidates (str_of_value sample_env) sample_items)
       = [JStr ''a'', JStr ''c'', JStr ''d'', JStr ''e'']"
proof -
  have f: "fetch_video_items sample_env (JStr ''cat'') 7 = Inr sample_items"
    by code_simp
  have v: "map view_count (get_youtube_shorts sample_env (JStr ''cat'') 7 default_max_results)
       = [70, 10, 10, 0]"
    by code_simp
  have o: "map video_id (get_youtube_shorts sample_env (JStr ''cat'') 7 default_max_results)
       = [JStr ''e'', JStr ''a'', JStr ''d'', JStr ''c'']"
    by code_simp
  have c: "map video_id (candidates (str_of_value sample_env) sample_items)
       = [JStr ''a'', JStr ''c'', JStr ''d'', JStr ''e'']"
    by code_simp
  show ?thesis
    using ranked_by_views_top_five [OF f] f v o c by simp
qed

text \<open>
  C5. When a step of the request sequence of \<^verbatim>\<open>get_youtube_shorts\<close> raises, the function
  returns the empty list. This holds for an exception of the \<^verbatim>\<open>try\<close> block as a whole,
  and so for each of its steps: an empty key pool, a client that cannot be built, a
  refused search or detail request, a detail response without \<^verbatim>\<open>items\<close>, a malformed
  item. The function has no other outcome than a list, so nothing else reaches the
  caller.
\<close>

theorem shorts_errors_become_empty_list:
  "(get_youtube_shorts_try E q days mr = Inl e \<longrightarrow> get_youtube_shorts E q days mr = [])
   \<and> (fetch_video_items E q days = Inl e \<longrightarrow> get_youtube_shorts E q days mr = [])
   \<and> (api_keys E = [] \<longrightarrow> get_youtube_shorts E q days mr = [])
   \<and> ((\<forall>key. build E key = Some e) \<longrightarrow> get_youtube_shorts E q days mr = [])
   \<and> ((\<forall>key text since. search_list E key text since = Inl e) \<longrightarrow> get_youtube_shorts E q days mr = [])
   \<and> ((\<forall>key ids. videos_list E key ids = Inl e) \<longrightarrow> get_youtube_shorts E q days mr = [])
   \<and> ((\<forall>key ids. \<exists>r. videos_list E key ids = Inr r \<and> getitem r ''items'' = Inl e)
        \<longrightarrow> get_youtube_shorts E q days mr = [])
   \<and> (fetch_video_items E q days = Inr items \<and> rank_videos (str_of_value E) items mr = Inl e
        \<longrightarrow> get_youtube_shorts E q days mr = [])"
proof -
  have fetch: "get_youtube_shorts E q days mr = []" if "fetch_video_items E q days = Inl x" for x
    using that by (simp add: get_youtube_shorts_def get_youtube_shorts_try_def and_then_simps)
  have raised: "\<exists>x. fetch_video_items E q days = Inl x \<Longrightarrow> get_youtube_shorts E q days mr = []"
    using fetch by blast
  have keys: "api_keys E = [] \<Longrightarrow> \<exists>x. fetch_video_items E q days = Inl x"
    by (simp add: fetch_video_items_def get_youtube_api_key_def and_then_simps)
  have build: "\<forall>key. build E key = Some e \<Longrightarrow> \<exists>x. fetch_video_items E q days = Inl x"
    by (cases "get_youtube_api_key E") (simp_all add: fetch_video_items_def and_then_simps)
  have search: "\<forall>key text since. search_list E key text since = Inl e
      \<Longrightarrow> \<exists>x. fetch_video_items E q days = Inl x"
    by (auto simp: fetch_video_items_def and_then_def split: sum.splits option.splits)
  have videos: "\<forall>key ids. videos_list E key ids = Inl e
      \<Longrightarrow> \<exists>x. fetch_video_items E q days = Inl x"
    by (auto simp: fetch_video_items_def and_then_def split: sum.splits option.splits)
  have malformed: "\<forall>key ids. \<exists>r. videos_list E key ids = Inr r \<and> getitem r ''items'' = Inl e
      \<Longrightarrow> \<exists>x. fetch_video_items E q days = Inl x"
  proof (cases "fetch_video_items E q days")
    case (Inl x)
    then show ?thesis by blast
  next
    case (Inr its)
    assume a: "\<forall>key ids. \<exists>r. videos_list E key ids = Inr r \<and> getitem r ''items'' = Inl e"
    from Inr obtain key ids r where r: "videos_list E key ids = Inr r"
      and ok: "and_then (getitem r ''items'') iterate = Inr its"
      by (auto simp: fetch_video_items_def and_then_Inr)
    from a r have "getitem r ''items'' = Inl e"
      by (metis sum.inject(2))
    with ok show ?thesis
      by (simp add: and_then_simps)
  qed
  show ?thesis
    using fetch raised keys build search videos malformed
    by (auto simp: get_youtube_shorts_def get_youtube_shorts_try_def and_then_simps)
qed

theorem shorts_errors_become_empty_list_witness:
  "get_youtube_shorts_try quota_env (JStr ''cat'') 7 5 = Inl (LibraryError ''quotaExceeded'')
   \<and> get_youtube_shorts quota_env (JStr ''cat'') 7 5 = []"
proof -
  have t: "get_youtube_shorts_try quota_env (JStr ''cat'') 7 5 = Inl (LibraryError ''quotaExceeded'')"
    by code_simp
  show ?thesis
    using shorts_errors_become_empty_list [of quota_env "JStr ''cat''" 7 5 "LibraryError ''quotaExceeded''"] t
    by simp
qed

section \<open>Properties of the analysis loop\<close>

lemma dict_find_dict_set:
  "dict_find (=) k (dict_set (=) k' v d) = (if k = k' then Some v else dict_find (=) k d)"
  by (induction d) auto

lemma process_country_results:
  "dict_find (=) k (results (process_country W p c st)) =
     (if k = c then Some (results_entry W p c) else dict_find (=) k (results st))"
  by (auto simp: process_country_def results_entry_def Let_def dict_find_dict_set
      split: sum.splits prod.splits option.splits)

lemma process_country_youtube:
  "dict_find (=) k (youtube_results (process_country W p c st)) =
     (if k = c then (case youtube_entry W p c of None \<Rightarrow> dict_find (=) k (youtube_results st) | Some d \<Rightarrow> Some d)
      else dict_find (=) k (youtube_results st))"
  by (auto simp: process_country_def youtube_entry_def Let_def dict_find_dict_set
      split: sum.splits prod.splits option.splits)

lemma analysis_loop_results:
  "dict_find (=) k (results (analysis_loop W p cs st)) =
     (if k \<in> set cs then Some (results_entry W p k) else dict_find (=) k (results st))"
  by (induction cs arbitrary: st) (auto simp: process_country_results)

lemma analysis_loop_youtube:
  assumes "\<forall>k. dict_find (=) k (youtube_results st) = (if k \<in> S then youtube_entry W p k else None)"
  shows "dict_find (=) k (youtube_results (analysis_loop W p cs st)) =
     (if k \<in> S \<union> set cs then youtube_entry W p k else None)"
  using assms
proof (induction cs arbitrary: st S)
  case Nil
  then show ?case by simp
next
  case (Cons c cs)
  have "\<forall>k. dict_find (=) k (youtube_results (process_country W p c st)) =
          (if k \<in> insert c S then youtube_entry W p k else None)"
    using Cons.prems by (auto simp: process_country_youtube split: option.splits)
  from Cons.IH [OF this] show ?case by simp
qed

lemma run_analysis_results:
  "dict_find (=) k (results (run_analysis W p cs)) =
     (if k \<in> set cs then Some (results_entry W p k) else None)"
  by (simp add: run_analysis_def analysis_loop_results)

lemma run_analysis_youtube:
  "dict_find (=) k (youtube_results (run_analysis W p cs)) =
     (if k \<in> set cs then youtube_entry W p k else None)"
  using analysis_loop_youtube [of "\<lparr>results = [], youtube_results = []\<rparr>" "{}" W p k cs]
  by (simp add: run_analysis_def)

lemma results_entry_raises:
  "country_raises W p c = Some e \<Longrightarrow> results_entry W p c = Error (str_exception e)"
  by (auto simp: country_raises_def results_entry_def split: sum.splits prod.splits)

lemma query_value_pairs_length:
  "query_value_pairs items = Inr pairs \<Longrightarrow> length pairs = length items"
  by (induction items arbitrary: pairs) (auto simp: and_then_def split: sum.splits)

lemma rising_queries_length:
  assumes "rising_queries_of data = Inr r" "iterate r = Inr items"
  shows "length items \<le> 15"
proof -
  from assms(1) have "r = JList [] \<or> (\<exists>x. slice_15 x = Inr r)"
    by (auto simp: rising_queries_of_def and_then_def split: sum.splits if_splits)
  then show ?thesis
  proof
    assume "r = JList []"
    with assms(2) show ?thesis by simp
  next
    assume "\<exists>x. slice_15 x = Inr r"
    then obtain x where "slice_15 x = Inr r" ..
    with assms(2) show ?thesis
      by (cases x) auto
  qed
qed

lemma trend_stage_length:
  assumes "trend_stage W c = Inr (items, pairs)"
  shows "length pairs \<le> 15"
proof -
  from assms obtain data r where "rising_queries_of data = Inr r" "iterate r = Inr items"
    "query_value_pairs items = Inr pairs"
    by (auto simp: trend_stage_def and_then_def split: sum.splits)
  then show ?thesis
    using rising_queries_length query_value_pairs_length by fastforce
qed

lemma reports_no_rising_empty:
  assumes "reports_no_rising data"
  shows "rising_queries_of data = Inr (JList [])"
proof -
  from assms obtain kvs where data: "data = JObj kvs"
    by (cases data) (simp_all add: reports_no_rising_def)
  show ?thesis
  proof (cases "map_of kvs ''related_queries''")
    case None
    then show ?thesis
      by (simp add: data rising_queries_of_def and_then_def)
  next
    case (Some rel)
    with assms data obtain rq where rel: "rel = JObj rq"
      by (cases rel) (simp_all add: reports_no_rising_def)
    from assms data Some rel
    have "map_of rq ''rising'' = None \<or> map_of rq ''rising'' = Some JNull
            \<or> map_of rq ''rising'' = Some (JList [])"
      by (simp add: reports_no_rising_def)
    then show ?thesis
      by (auto simp: data Some rel rising_queries_of_def and_then_def)
  qed
qed

lemma trend_stage_no_rising:
  assumes "fetch_trends W c = Inr data" "reports_no_rising data"
  shows "trend_stage W c = Inr ([], [])"
  using assms by (simp add: trend_stage_def and_then_def reports_no_rising_empty)

text \<open>
  C4. Whatever the provider answers, a list of rising (query, value) pairs stored for a
  country has at most 15 entries; and for a selected country whose response reports no
  rising entries, the stored list is the empty list.
\<close>

theorem rising_list_at_most_fifteen:
  "(dict_find (=) c (results (run_analysis W p cs)) = Some (Rising_related_queries pairs)
      \<longrightarrow> length pairs \<le> 15)
   \<and> (c \<in> set cs \<and> fetch_trends W c = Inr data \<and> reports_no_rising data
      \<longrightarrow> dict_find (=) c (results (run_analysis W p cs)) = Some (Rising_related_queries []))"
proof -
  have a: "length pairs \<le> 15"
    if "dict_find (=) c (results (run_analysis W p cs)) = Some (Rising_related_queries pairs)"
  proof -
    from that have "results_entry W p c = Rising_related_queries pairs"
      by (simp add: run_analysis_results split: if_splits)
    then obtain items where "trend_stage W c = Inr (items, pairs)"
      by (auto simp: results_entry_def split: sum.splits prod.splits option.splits)
    then show ?thesis by (rule trend_stage_length)
  qed
  have b: "dict_find (=) c (results (run_analysis W p cs)) = Some (Rising_related_queries [])"
    if "c \<in> set cs" "fetch_trends W c = Inr data" "reports_no_rising data"
    using that trend_stage_no_rising [of W c data]
    by (simp add: run_analysis_results results_entry_def)
  show ?thesis
    using a b by blast
qed

theorem rising_list_at_most_fifteen_witness:
  "dict_find (=) USA (results (run_analysis sample_world Last_week [USA, Japan]))
     = Some (Rising_related_queries (map (\<lambda>c. (JStr [c], JInt 100)) ''abcdefghijklmno''))
   \<and> length (map (\<lambda>c. (JStr [c], JInt 100)) ''abcdefghijklmno'') \<le> 15
   \<and> Japan \<in> set [USA, Japan]
   \<and> fetch_trends sample_world Japan = Inr (JObj [(''search_metadata'', JObj [])])
   \<and> reports_no_rising (JObj [(''search_metadata'', JObj [])])
   \<and> dict_find (=) Japan (results (run_analysis sample_world Last_week [USA, Japan]))
       = Some (Rising_related_queries [])"
proof -
  have u: "dict_find (=) USA (results (run_analysis sample_world Last_week [USA, Japan]))
     = Some (Rising_related_queries (map (\<lambda>c. (JStr [c], JInt 100)) ''abcdefghijklmno''))"
    by code_simp
  have l: "length (map (\<lambda>c. (JStr [c], JInt 100)) ''abcdefghijklmno'') \<le> 15"
    using rising_list_at_most_fifteen [of USA sample_world Last_week "[USA, Japan]"] u by blast
  have j: "Japan \<in> set [USA, Japan]"
    by simp
  have f: "fetch_trends sample_world Japan = Inr (JObj [(''search_metadata'', JObj [])])"
    by code_simp
  have n: "reports_no_rising (JObj [(''search_metadata'', JObj [])])"
    by (simp add: reports_no_rising_def)
  have "dict_find (=) Japan (results (run_analysis sample_world Last_week [USA, Japan]))
       = Some (Rising_related_queries [])"
    using rising_list_at_most_fifteen [of Japan sample_world Last_week "[USA, Japan]"] j f n by blast
  with u l j f n show ?thesis
    by (intro conjI)
qed

text \<open>
  C6. In the loop over the selected countries, when the iteration of country A raises
  (in its trend fetch or later), A's entry of the results records the error string, and
  the entries of another selected country B, in the results and in the video results,
  are those that B's iteration alone produces; B's entry of the results is present.
\<close>

theorem country_failures_are_isolated:
  assumes "A \<in> set cs" "B \<in> set cs" "A \<noteq> B" "country_raises W p A = Some e"
  shows "dict_find (=) A (results (run_analysis W p cs)) = Some (Error (str_exception e))
       \<and> dict_find (=) B (results (run_analysis W p cs)) = dict_find (=) B (results (run_analysis W p [B]))
       \<and> dict_find (=) B (youtube_results (run_analysis W p cs))
           = dict_find (=) B (youtube_results (run_analysis W p [B]))
       \<and> dict_find (=) B (results (run_analysis W p cs)) \<noteq> None"
  using assms by (simp add: run_analysis_results run_analysis_youtube results_entry_raises)

theorem country_failures_are_isolated_witness:
  "Korea \<in> set [Korea, USA] \<and> USA \<in> set [Korea, USA] \<and> Korea \<noteq> USA
   \<and> country_raises sample_world Last_week Korea = Some (LibraryError ''timeout'')
   \<and> dict_find (=) Korea (results (run_analysis sample_world Last_week [Korea, USA]))
       = Some (Error ''timeout'')
   \<and> dict_find (=) USA (results (run_analysis sample_world Last_week [Korea, USA]))
       = dict_find (=) USA (results (run_analysis sample_world Last_week [USA]))
   \<and> dict_find (=) USA (youtube_results (run_analysis sample_world Last_week [Korea, USA]))
       = dict_find (=) USA (youtube_results (run_analysis sample_world Last_week [USA]))
   \<and> dict_find (=) USA (results (run_analysis sample_world Last_week [Korea, USA])) \<noteq> None"
proof -
  have a: "Korea \<in> set [Korea, USA]" and b: "USA \<in> set [Korea, USA]" and ab: "Korea \<noteq> USA"
    by simp_all
  have r: "country_raises sample_world Last_week Korea = Some (LibraryError ''timeout'')"
    by code_simp
  have s: "str_exception (LibraryError ''timeout'') = ''timeout''"
    by simp
  show ?thesis
    using country_failures_are_isolated [OF a b ab r] a b ab r unfolding s
    by (intro conjI) blast+
qed

section \<open>Properties of the bulk download\<close>

lemma str_contains_set: "str_contains needle hay \<Longrightarrow> set needle \<subseteq> set hay"
proof (induction hay)
  case Nil
  then show ?case by simp
next
  case (Cons c hay)
  from Cons.prems have "prefix needle (c # hay) \<or> str_contains needle hay"
    by simp
  then show ?case
  proof
    assume "prefix needle (c # hay)"
    then show ?thesis by (rule set_mono_prefix)
  next
    assume "str_contains needle hay"
    then have "set needle \<subseteq> set hay" by (rule Cons.IH)
    then show ?thesis by auto
  qed
qed

lemma str_contains_prefix: "prefix needle hay \<Longrightarrow> str_contains needle hay"
  by (cases hay) simp_all

lemma str_contains_append: "str_contains needle (pre @ needle @ post)"
  by (induction pre) (simp_all add: str_contains_prefix)

lemma split_from_nonempty: "split_from sep cur s \<noteq> []"
  by (induction s arbitrary: cur) auto

lemma split_from_append:
  "split_from sep cur (a @ sep # b) = split_from sep cur a @ split_from sep [] b"
  by (induction a arbitrary: cur) auto

lemma split_from_no_sep: "sep \<notin> set s \<Longrightarrow> split_from sep cur s = [cur @ s]"
  by (induction s arbitrary: cur) auto

lemma last_segment:
  assumes "sep \<notin> set b"
  shows "last (split_on sep (a @ sep # b)) = b"
  using assms by (simp add: split_on_def split_from_append split_from_no_sep)

lemma normalize_shorts:
  assumes "CHR ''/'' \<notin> set ident"
  shows "normalize_url (pre @ ''youtube.com/shorts/'' @ ident) = ''https://www.youtube.com/watch?v='' @ ident"
proof -
  have c: "str_contains ''youtube.com/shorts/'' (pre @ ''youtube.com/shorts/'' @ ident)"
    by (rule str_contains_append)
  have "pre @ ''youtube.com/shorts/'' @ ident = (pre @ ''youtube.com/shorts'') @ CHR ''/'' # ident"
    by simp
  then have "last (split_on CHR ''/'' (pre @ ''youtube.com/shorts/'' @ ident)) = ident"
    using last_segment [OF assms] by metis
  with c show ?thesis
    by (simp add: normalize_url_def)
qed

lemma watch_not_shorts:
  assumes "CHR ''/'' \<notin> set rest"
  shows "\<not> str_contains ''youtube.com/shorts/'' (''https://www.youtube.com/watch?v='' @ rest)"
proof -
  have "\<not> str_contains ''youtube.com/shorts/'' rest"
    using assms str_contains_set by fastforce
  then show ?thesis
    by simp
qed

text \<open>
  C7. The URL normalization of the bulk download maps
  \<^verbatim>\<open>https://youtube.com/shorts/XYZ\<close> to \<^verbatim>\<open>https://www.youtube.com/watch?v=XYZ\<close>, for
  \<^verbatim>\<open>XYZ\<close> and for every identifier without a slash in its place, and leaves a standard
  watch URL (and every string that does not contain \<^verbatim>\<open>youtube.com/shorts/\<close>) unchanged.
\<close>

theorem shorts_url_normalization:
  "normalize_url ''https://youtube.com/shorts/XYZ'' = ''https://www.youtube.com/watch?v=XYZ''
   \<and> (\<forall>ident. CHR ''/'' \<notin> set ident \<longrightarrow>
         normalize_url (''https://youtube.com/shorts/'' @ ident) = ''https://www.youtube.com/watch?v='' @ ident)
   \<and> (\<forall>ident. CHR ''/'' \<notin> set ident \<longrightarrow>
         normalize_url (''https://www.youtube.com/watch?v='' @ ident) = ''https://www.youtube.com/watch?v='' @ ident)
   \<and> (\<forall>u. \<not> str_contains ''youtube.com/shorts/'' u \<longrightarrow> normalize_url u = u)"
proof -
  have general: "normalize_url (''https://youtube.com/shorts/'' @ ident) = ''https://www.youtube.com/watch?v='' @ ident"
    if "CHR ''/'' \<notin> set ident" for ident
    using normalize_shorts [OF that, of "''https://''"] by simp
  have example: "normalize_url ''https://youtube.com/shorts/XYZ'' = ''https://www.youtube.com/watch?v=XYZ''"
    using general [of "''XYZ''"] by simp
  have watch: "normalize_url (''https://www.youtube.com/watch?v='' @ ident) = ''https://www.youtube.com/watch?v='' @ ident"
    if "CHR ''/'' \<notin> set ident" for ident
    using watch_not_shorts [OF that] by (simp add: normalize_url_def)
  have other: "normalize_url u = u" if "\<not> str_contains ''youtube.com/shorts/'' u" for u
    using that by (simp add: normalize_url_def)
  show ?thesis
    using general example watch other by blast
qed

theorem shorts_url_normalization_witness:
  "CHR ''/'' \<notin> set ''dQw4w9WgXcQ''
   \<and> normalize_url ''https://youtube.com/shorts/dQw4w9WgXcQ''
       = ''https://www.youtube.com/watch?v=dQw4w9WgXcQ''
   \<and> normalize_url ''https://www.youtube.com/watch?v=dQw4w9WgXcQ''
       = ''https://www.youtube.com/watch?v=dQw4w9WgXcQ''
   \<and> \<not> str_contains ''youtube.com/shorts/'' ''https://youtu.be/dQw4w9WgXcQ''
   \<and> normalize_url ''https://youtu.be/dQw4w9WgXcQ'' = ''https://youtu.be/dQw4w9WgXcQ''"
proof -
  have i: "CHR ''/'' \<notin> set ''dQw4w9WgXcQ''"
    by simp
  have n: "\<not> str_contains ''youtube.com/shorts/'' ''https://youtu.be/dQw4w9WgXcQ''"
    by simp
  have 1: "normalize_url (''https://youtube.com/shorts/'' @ ''dQw4w9WgXcQ'')
       = ''https://www.youtube.com/watch?v='' @ ''dQw4w9WgXcQ''"
    using shorts_url_normalization i by blast
  have 2: "normalize_url (''https://www.youtube.com/watch?v='' @ ''dQw4w9WgXcQ'')
       = ''https://www.youtube.com/watch?v='' @ ''dQw4w9WgXcQ''"
    using shorts_url_normalization i by blast
  have 3: "normalize_url ''https://youtu.be/dQw4w9WgXcQ'' = ''https://youtu.be/dQw4w9WgXcQ''"
    using shorts_url_normalization n by blast
  from i n 1 2 3 show ?thesis
    by simp
qed

lemma video_links_loop_append:
  "video_links_loop (xs @ ys) acc = video_links_loop ys (video_links_loop xs acc)"
  by (induction xs arbitrary: acc) (auto split: cell.splits)

lemma video_links_loop_skip:
  "isna c \<or> \<not> isinstance_str c \<Longrightarrow>
     video_links_loop (before @ c # after) acc = video_links_loop (before @ after) acc"
  by (simp add: video_links_loop_append)

lemma video_links_loop_length:
  "length (video_links_loop cells acc) = length acc + length (filter isinstance_str cells)"
  by (induction cells arbitrary: acc) (auto split: cell.splits)

lemma download_loop_failed:
  "set (map fst (snd (download_loop ydl idx links st))) \<subseteq> set (map fst (snd st)) \<union> set links"
proof (induction links arbitrary: idx st)
  case Nil
  show ?case by simp
next
  case (Cons l links)
  obtain n f where st: "st = (n, f)" by (cases st)
  show ?case
  proof (cases "ydl idx l")
    case None
    then show ?thesis
      using Cons.IH [of "Suc idx" "(Suc n, f)"] by (auto simp: st)
  next
    case (Some e)
    then show ?thesis
      using Cons.IH [of "Suc idx" "(n, f @ [(l, str_exception e)])"] by (auto simp: st)
  qed
qed

text \<open>
  C10. When the bulk download builds its list of links, a row whose \<^verbatim>\<open>url\<close> cell is
  missing (NaN) or not a string is skipped without a message: the links attempted, the
  reported total, the number of successes and the failure list are what they are
  without that row. The total counts exactly the string cells, and every entry of the
  failure list is one of the links attempted.
\<close>

theorem unusable_url_cells_are_skipped:
  "(isna c \<or> \<not> isinstance_str c \<longrightarrow>
      bulk_download ydl (before @ c # after) = bulk_download ydl (before @ after))
   \<and> num_videos (bulk_download ydl cells) = length (filter isinstance_str cells)
   \<and> length (video_links (bulk_download ydl cells)) = num_videos (bulk_download ydl cells)
   \<and> set (map fst (failed (bulk_download ydl cells))) \<subseteq> set (video_links (bulk_download ydl cells))"
proof -
  have skip: "bulk_download ydl (before @ c # after) = bulk_download ydl (before @ after)"
    if "isna c \<or> \<not> isinstance_str c"
    using that by (simp add: bulk_download_def video_links_loop_skip)
  have count: "num_videos (bulk_download ydl cells) = length (filter isinstance_str cells)"
    by (simp add: bulk_download_def Let_def video_links_loop_length split: prod.splits)
  have len: "length (video_links (bulk_download ydl cells)) = num_videos (bulk_download ydl cells)"
    by (simp add: bulk_download_def Let_def split: prod.splits)
  have failed: "set (map fst (failed (bulk_download ydl cells))) \<subseteq> set (video_links (bulk_download ydl cells))"
    using download_loop_failed [of ydl 1 "video_links_loop cells []" "(0, [])"]
    by (cases "download_loop ydl 1 (video_links_loop cells []) (0, [])")
      (simp add: bulk_download_def Let_def)
  show ?thesis
    using skip count len failed by blast
qed

theorem unusable_url_cells_are_skipped_witness:
  "(isna NaN \<or> \<not> isinstance_str NaN)
   \<and> bulk_download sample_ydl ([Text ''https://youtube.com/shorts/XYZ''] @ NaN # [Text ''not a link''])
       = bulk_download sample_ydl ([Text ''https://youtube.com/shorts/XYZ''] @ [Text ''not a link''])
   \<and> video_links (bulk_download sample_ydl sample_cells)
       = [''https://www.youtube.com/watch?v=XYZ'', ''https://www.youtube.com/watch?v=abc'', ''not a link'']
   \<and> num_videos (bulk_download sample_ydl sample_cells) = 3
   \<and> failed (bulk_download sample_ydl sample_cells) = [(''not a link'', ''unsupported URL'')]"
proof -
  have h: "isna NaN \<or> \<not> isinstance_str NaN"
    by simp
  have s: "bulk_download sample_ydl ([Text ''https://youtube.com/shorts/XYZ''] @ NaN # [Text ''not a link''])
       = bulk_download sample_ydl ([Text ''https://youtube.com/shorts/XYZ''] @ [Text ''not a link''])"
    using unusable_url_cells_are_skipped h by blast
  have l: "video_links (bulk_download sample_ydl sample_cells)
       = [''https://www.youtube.com/watch?v=XYZ'', ''https://www.youtube.com/watch?v=abc'', ''not a link'']"
    by code_simp
  have n: "num_videos (bulk_download sample_ydl sample_cells) = 3"
    by code_simp
  have f: "failed (bulk_download sample_ydl sample_cells) = [(''not a link'', ''unsupported URL'')]"
    by code_simp
  from h s l n f show ?thesis
    by (intro conjI)
qed

section \<open>Missing statistics\<close>

lemma make_video_info_counts:
  assumes "getitem video ''statistics'' = Inr (JObj stats)" "make_video_info other video = Inr v"
  shows "(map_of stats ''viewCount'' = None \<longrightarrow> view_count v = 0)
       \<and> (map_of stats ''likeCount'' = None \<longrightarrow> like_count v = 0)"
proof -
  from assms(2) obtain vc views lc likes where
    "dict_get (JObj stats) ''viewCount'' (JInt 0) = Inr vc" "py_int vc = Inr views"
    "dict_get (JObj stats) ''likeCount'' (JInt 0) = Inr lc" "py_int lc = Inr likes"
    "view_count v = views" "like_count v = likes"
    unfolding make_video_info_def and_then_Inr assms(1) by auto
  then show ?thesis
    by (auto split: option.splits)
qed

lemma explicit_zero_views:
  assumes "map_of kvs ''statistics'' = Some (JObj stats)" "map_of stats ''viewCount'' = None"
  shows "make_video_info other (JObj ((''statistics'', JObj ((''viewCount'', JInt 0) # stats)) # kvs))
           = make_video_info other (JObj kvs)"
  using assms by (simp add: make_video_info_def and_then_simps)

lemma explicit_zero_likes:
  assumes "map_of kvs ''statistics'' = Some (JObj stats)" "map_of stats ''likeCount'' = None"
  shows "make_video_info other (JObj ((''statistics'', JObj ((''likeCount'', JInt 0) # stats)) # kvs))
           = make_video_info other (JObj kvs)"
  using assms by (simp add: make_video_info_def and_then_simps)

lemma explicit_zero_duration:
  "video_duration (JObj ((''statistics'', s) # kvs)) = video_duration (JObj kvs)"
  by (simp add: video_duration_def)

text \<open>
  C9. For an item of the detail response whose statistics object lacks \<^verbatim>\<open>viewCount\<close>
  (respectively \<^verbatim>\<open>likeCount\<close>), the dict built has view count (respectively like count)
  0. Such an item is treated as any other: it yields the same dict and the same
  duration as the item with the count written out as 0; when the stage succeeds and
  the item is short, its dict is among the filtered candidates that are ranked, and in
  the output whenever the candidates are no more than \<open>max_results\<close>.
\<close>

theorem missing_counts_default_to_zero:
  assumes "map_of kvs ''statistics'' = Some (JObj stats)"
  shows "(\<forall>v. make_video_info other (JObj kvs) = Inr v \<longrightarrow>
            (map_of stats ''viewCount'' = None \<longrightarrow> view_count v = 0)
          \<and> (map_of stats ''likeCount'' = None \<longrightarrow> like_count v = 0))
       \<and> (map_of stats ''viewCount'' = None \<longrightarrow>
            make_video_info other (JObj ((''statistics'', JObj ((''viewCount'', JInt 0) # stats)) # kvs))
              = make_video_info other (JObj kvs)
          \<and> video_duration (JObj ((''statistics'', JObj ((''viewCount'', JInt 0) # stats)) # kvs))
              = video_duration (JObj kvs))
       \<and> (map_of stats ''likeCount'' = None \<longrightarrow>
            make_video_info other (JObj ((''statistics'', JObj ((''likeCount'', JInt 0) # stats)) # kvs))
              = make_video_info other (JObj kvs)
          \<and> video_duration (JObj ((''statistics'', JObj ((''likeCount'', JInt 0) # stats)) # kvs))
              = video_duration (JObj kvs))
       \<and> (JObj kvs \<in> set items \<and> short_item (JObj kvs)
            \<and> rank_videos other items max_results = Inr out \<longrightarrow>
            (\<exists>v. make_video_info other (JObj kvs) = Inr v
                 \<and> v \<in> set (candidates other items)
                 \<and> (int (length (candidates other items)) \<le> max_results \<longrightarrow> v \<in> set out)))"
proof -
  have stats: "getitem (JObj kvs) ''statistics'' = Inr (JObj stats)"
    using assms by simp
  have counts: "(map_of stats ''viewCount'' = None \<longrightarrow> view_count v = 0)
          \<and> (map_of stats ''likeCount'' = None \<longrightarrow> like_count v = 0)"
    if "make_video_info other (JObj kvs) = Inr v" for v
    using make_video_info_counts [OF stats that] .
  have ranked: "\<exists>v. make_video_info other (JObj kvs) = Inr v
                 \<and> v \<in> set (candidates other items)
                 \<and> (int (length (candidates other items)) \<le> max_results \<longrightarrow> v \<in> set out)"
    if mem: "JObj kvs \<in> set items" and short: "short_item (JObj kvs)"
      and ok: "rank_videos other items max_results = Inr out"
  proof -
    from ok have c: "collect_videos other items [] = Inr (candidates other items)"
      and out: "out = slice_to max_results (sorted_reverse view_count (candidates other items))"
      by (simp_all add: rank_videos_Inr)
    from collect_videos_items [OF c mem] short obtain v
      where v: "make_video_info other (JObj kvs) = Inr v"
      by (auto simp: short_item_def)
    have in_c: "v \<in> set (candidates other items)"
      using mem short v by (auto simp: candidates_mem)
    have "v \<in> set out" if "int (length (candidates other items)) \<le> max_results"
      using that in_c
      by (simp add: out slice_to_all length_sorted_reverse set_sorted_reverse)
    with v in_c show ?thesis by blast
  qed
  show ?thesis
    using counts ranked explicit_zero_views [OF assms] explicit_zero_likes [OF assms]
      explicit_zero_duration
    by (intro conjI allI impI) (blast | simp)+
qed

theorem missing_counts_default_to_zero_witness:
  "map_of (sample_fields ''c'' ''PT1M'' [(''likeCount'', JStr ''3'')]) ''statistics''
     = Some (JObj [(''likeCount'', JStr ''3'')])
   \<and> map_of [(''likeCount'', JStr ''3'')] ''viewCount'' = None
   \<and> JObj (sample_fields ''c'' ''PT1M'' [(''likeCount'', JStr ''3'')]) \<in> set sample_items
   \<and> short_item (JObj (sample_fields ''c'' ''PT1M'' [(''likeCount'', JStr ''3'')]))
   \<and> (\<exists>out. rank_videos (\<lambda>j. ''?'') sample_items 5 = Inr out)
   \<and> (\<exists>v. make_video_info (\<lambda>j. ''?'') (JObj (sample_fields ''c'' ''PT1M'' [(''likeCount'', JStr ''3'')]))
              = Inr v
          \<and> view_count v = 0 \<and> like_count v = 3
          \<and> v \<in> set (candidates (\<lambda>j. ''?'') sample_items)
          \<and> v \<in> set (case rank_videos (\<lambda>j. ''?'') sample_items 5 of Inl e \<Rightarrow> [] | Inr out \<Rightarrow> out))"
proof -
  let ?o = "\<lambda>j::json. ''?''"
  let ?kvs = "sample_fields ''c'' ''PT1M'' [(''likeCount'', JStr ''3'')]"
  have st: "map_of ?kvs ''statistics'' = Some (JObj [(''likeCount'', JStr ''3'')])"
    by (simp add: sample_fields_def)
  have nov: "map_of [(''likeCount'', JStr ''3'')] ''viewCount'' = None"
    by simp
  have mem: "JObj ?kvs \<in> set sample_items"
    by (simp add: sample_items_def sample_video_def)
  have short: "short_item (JObj ?kvs)"
    by code_simp
  have "case rank_videos ?o sample_items 5 of Inl e \<Rightarrow> False | Inr out \<Rightarrow> True"
    by code_simp
  then obtain out where ok: "rank_videos ?o sample_items 5 = Inr out"
    by (cases "rank_videos ?o sample_items 5") simp_all
  have len: "int (length (candidates ?o sample_items)) \<le> 5"
    by code_simp
  note inst = missing_counts_default_to_zero [OF st, of ?o sample_items 5 out]
  from inst mem short ok len obtain v where v: "make_video_info ?o (JObj ?kvs) = Inr v"
    and c: "v \<in> set (candidates ?o sample_items)" and o: "v \<in> set out"
    by blast
  from inst v nov have z: "view_count v = 0"
    by blast
  have "map_sum id like_count (make_video_info ?o (JObj ?kvs)) = Inr 3"
    by code_simp
  with v have l: "like_count v = 3"
    by simp
  from v z l c o ok have "\<exists>v. make_video_info ?o (JObj ?kvs) = Inr v
          \<and> view_count v = 0 \<and> like_count v = 3
          \<and> v \<in> set (candidates ?o sample_items)
          \<and> v \<in> set (case rank_videos ?o sample_items 5 of Inl e \<Rightarrow> [] | Inr out \<Rightarrow> out)"
    by auto
  with st nov mem short ok show ?thesis
    by blast
qed

section \<open>Properties of the export\<close>

lemma to_excel_Inr:
  "to_excel X name rows book = Inr book' \<Longrightarrow> book' = book @ [(name, rows)]"
  by (auto simp: to_excel_def split: option.splits)

lemma export_excel_names:
  assumes "export_excel X st = Inr book"
  shows "map fst book = [''YouTube Shorts'', ''Meme Keyword'']"
proof -
  from assms obtain youtube_data book1 where
    1: "to_excel X ''YouTube Shorts'' (Youtube_sheet youtube_data) [] = Inr book1" and
    2: "to_excel X ''Meme Keyword'' (Trends_sheet (trends_data_of (results st))) book1 = Inr book"
    by (auto simp: export_excel_def and_then_Inr)
  from to_excel_Inr [OF 1] to_excel_Inr [OF 2] show ?thesis
    by simp
qed

lemma rows_of_shorts_total:
  assumes "list_all (\<lambda>short. case published_date X (published_at short) of Inr d \<Rightarrow> True | Inl e \<Rightarrow> False) shorts"
  shows "\<exists>rows. rows_of_shorts X c query shorts = Inr rows"
  using assms
proof (induction shorts)
  case Nil
  show ?case by simp
next
  case (Cons short shorts)
  then obtain d rows where "published_date X (published_at short) = Inr d"
    "rows_of_shorts X c query shorts = Inr rows"
    by (auto split: sum.splits)
  then show ?case
    by (simp add: and_then_simps)
qed

lemma rows_of_queries_total:
  assumes "list_all (\<lambda>(query, shorts).
         list_all (\<lambda>short. case published_date X (published_at short) of Inr d \<Rightarrow> True | Inl e \<Rightarrow> False)
           shorts) queries"
  shows "\<exists>rows. rows_of_queries X c queries = Inr rows"
  using assms
proof (induction queries)
  case Nil
  show ?case by simp
next
  case (Cons qs queries)
  obtain query shorts where qs: "qs = (query, shorts)" by (cases qs)
  from Cons.prems qs obtain rows where 1: "rows_of_shorts X c query shorts = Inr rows"
    using rows_of_shorts_total [of X shorts c query] by auto
  from Cons obtain rest where 2: "rows_of_queries X c queries = Inr rest"
    by auto
  show ?case
    by (simp add: qs 1 2 and_then_simps)
qed

lemma youtube_data_of_total:
  assumes "list_all (\<lambda>(c, queries).
       list_all (\<lambda>(query, shorts).
         list_all (\<lambda>short. case published_date X (published_at short) of Inr d \<Rightarrow> True | Inl e \<Rightarrow> False)
           shorts) queries) countries"
  shows "\<exists>rows. youtube_data_of X countries = Inr rows"
  using assms
proof (induction countries)
  case Nil
  show ?case by simp
next
  case (Cons cq countries)
  obtain c queries where cq: "cq = (c, queries)" by (cases cq)
  from Cons.prems cq obtain rows where 1: "rows_of_queries X c queries = Inr rows"
    using rows_of_queries_total [of X queries c] by auto
  from Cons obtain rest where 2: "youtube_data_of X countries = Inr rest"
    by auto
  show ?case
    by (simp add: cq 1 2 and_then_simps)
qed

text \<open>
  C8, as the spec states it, fails: the two sheets are not named \<^verbatim>\<open>Video results\<close> and
  \<^verbatim>\<open>Search Keyword\<close>.
\<close>

theorem export_sheet_names_counterexample:
  "exported_sheet_names sample_export_env (run_analysis sample_world Last_week [USA])
     = Some [''YouTube Shorts'', ''Meme Keyword'']
   \<and> exported_sheet_names sample_export_env (run_analysis sample_world Last_week [USA])
     \<noteq> Some [''Video results'', ''Search Keyword'']"
proof -
  have "exported_sheet_names sample_export_env (run_analysis sample_world Last_week [USA])
     = Some [''YouTube Shorts'', ''Meme Keyword'']"
    by code_simp
  then show ?thesis
    by simp
qed

text \<open>
  C8, amended. A workbook the export produces contains exactly two sheets, named
  \<^verbatim>\<open>YouTube Shorts\<close> and \<^verbatim>\<open>Meme Keyword\<close>, in this order; and the export does produce
  a workbook when writing a sheet does not raise and every stored publication timestamp
  parses.
\<close>

theorem export_sheet_names:
  "(export_excel X st = Inr book \<longrightarrow>
      map fst book = [''YouTube Shorts'', ''Meme Keyword''] \<and> length book = 2)
   \<and> ((\<forall>name rows. to_excel_raises X name rows = None) \<and> dates_parse X st
        \<longrightarrow> (\<exists>book'. export_excel X st = Inr book'))"
proof -
  have names: "map fst book = [''YouTube Shorts'', ''Meme Keyword''] \<and> length book = 2"
    if "export_excel X st = Inr book"
  proof -
    have n: "map fst book = [''YouTube Shorts'', ''Meme Keyword'']"
      using that by (rule export_excel_names)
    have "length (map fst book) = length [''YouTube Shorts'', ''Meme Keyword'']"
      by (simp only: n)
    then have "length book = 2"
      by simp
    with n show ?thesis by simp
  qed
  have total: "\<exists>book'. export_excel X st = Inr book'"
    if w: "\<forall>name rows. to_excel_raises X name rows = None" and d: "dates_parse X st"
  proof -
    from d obtain rows where "youtube_data_of X (youtube_results st) = Inr rows"
      using youtube_data_of_total [of X "youtube_results st"] by (auto simp: dates_parse_def)
    then show ?thesis
      using w by (simp add: export_excel_def to_excel_def and_then_simps)
  qed
  show ?thesis
    using names total by blast
qed

theorem export_sheet_names_witness:
  "(\<forall>name rows. to_excel_raises sample_export_env name rows = None)
   \<and> dates_parse sample_export_env (run_analysis sample_world Last_week [USA])
   \<and> (\<exists>book. export_excel sample_export_env (run_analysis sample_world Last_week [USA]) = Inr book
         \<and> map fst book = [''YouTube Shorts'', ''Meme Keyword''] \<and> length book = 2)"
proof -
  let ?st = "run_analysis sample_world Last_week [USA]"
  have w: "\<forall>name rows. to_excel_raises sample_export_env name rows = None"
    by (simp add: sample_export_env_def)
  have d: "dates_parse sample_export_env ?st"
    by code_simp
  note inst = export_sheet_names [of sample_export_env ?st]
  from inst w d obtain book where b: "export_excel sample_export_env ?st = Inr book"
    by blast
  from export_sheet_names [of sample_export_env ?st book] b
  have n: "map fst book = [''YouTube Shorts'', ''Meme Keyword''] \<and> length book = 2"
    by blast
  from n have n1: "map fst book = [''YouTube Shorts'', ''Meme Keyword'']" and n2: "length book = 2"
    by (rule conjunct1, rule conjunct2)
  from b n1 n2 have e: "\<exists>book. export_excel sample_export_env ?st = Inr book
         \<and> map fst book = [''YouTube Shorts'', ''Meme Keyword''] \<and> length book = 2"
    by (intro exI [of _ book] conjI)
  from w d e show ?thesis
    by (intro conjI)
qed

end
